(* ===== verification/Prelude.thy ===== *)
theory Prelude
  imports Main "HOL-Library.AList"
begin

text \<open>
  Shared vocabulary of the development: the names of the model's basic types, the
  result type of fallible Python code (an exception is an \<open>Inl\<close>), its bind, and the
  generic facts on lists of timestamps (ascending order, running maximum, pages cut
  from a filtered list) that the component theories share.
\<close>

type_synonym timestamp = int
type_synonym symbol = string

named_theorems result_simps \<open>rewriting of bind_result over exception results\<close>

definition bind_result :: "'e + 'a \<Rightarrow> ('a \<Rightarrow> 'e + 'b) \<Rightarrow> 'e + 'b" where
  "bind_result r f = (case r of Inl e \<Rightarrow> Inl e | Inr a \<Rightarrow> f a)"

text \<open>A list cut into consecutive pieces of \<open>n\<close> elements (the last one may be shorter).\<close>

function chunks :: "nat \<Rightarrow> 'a list \<Rightarrow> 'a list list" where
  "chunks n xs = (if n = 0 \<or> xs = [] then [] else take n xs # chunks n (drop n xs))"
  by pat_completeness auto
termination
  by (relation "measure (\<lambda>(n, xs). length xs)") auto

declare chunks.simps [simp del]

lemma bind_result_Inl [simp, result_simps]: "bind_result (Inl e) f = Inl e"
  by (simp add: bind_result_def)

lemma bind_result_Inr [simp, result_simps]: "bind_result (Inr a) f = f a"
  by (simp add: bind_result_def)

lemma bind_result_eq_Inr [result_simps]:
  "bind_result r f = Inr b \<longleftrightarrow> (\<exists>a. r = Inr a \<and> f a = Inr b)"
  by (cases r) auto

lemma bind_result_eq_Inl [result_simps]:
  "bind_result r f = Inl e \<longleftrightarrow> (r = Inl e \<or> (\<exists>a. r = Inr a \<and> f a = Inl e))"
  by (cases r) auto

subsection \<open>Running maximum\<close>

text \<open>\<open>fold max ts c\<close> is the running maximum a cursor reaches over the values \<open>ts\<close>.\<close>

lemma fold_max_ge_init [intro]: "(c::'a::linorder) \<le> fold max ts c"
proof (induction ts arbitrary: c)
  case Nil
  then show ?case by simp
next
  case (Cons t ts)
  have "c \<le> max t c" by simp
  also have "\<dots> \<le> fold max ts (max t c)" by (rule Cons.IH)
  finally show ?case by simp
qed

lemma fold_max_ge_elem: "(t::'a::linorder) \<in> set ts \<Longrightarrow> t \<le> fold max ts c"
proof (induction ts arbitrary: c)
  case Nil
  then show ?case by simp
next
  case (Cons u ts)
  show ?case
  proof (cases "t = u")
    case True
    have "t \<le> max u c" using True by simp
    also have "\<dots> \<le> fold max ts (max u c)" by (rule fold_max_ge_init)
    finally show ?thesis by simp
  next
    case False
    with Cons show ?thesis by simp
  qed
qed

lemma fold_max_sorted_last:
  "sorted (ts::'a::linorder list) \<Longrightarrow> ts \<noteq> [] \<Longrightarrow> c \<le> last ts \<Longrightarrow> fold max ts c = last ts"
proof (induction ts arbitrary: c)
  case Nil
  then show ?case by simp
next
  case (Cons t ts)
  show ?case
  proof (cases ts)
    case Nil
    with Cons.prems show ?thesis by (simp add: max_def)
  next
    case (Cons u us)
    with Cons.prems have "max t c \<le> last ts" and "sorted ts"
      by (auto simp: max_def)
    with Cons.IH Cons.prems \<open>ts = u # us\<close> show ?thesis by simp
  qed
qed

subsection \<open>Strictly ascending lists of keyed records\<close>

text \<open>
  A remote history is a list of records whose key (the timestamp) strictly increases.
  A page is a prefix of the records after a cursor; the records after the page's last
  key are exactly the ones the page did not contain.
\<close>

lemma sorted_wrt_less_filter_gt_last:
  assumes "sorted_wrt (\<lambda>a b. key a < key b) ys" and "0 < n" and "take n ys \<noteq> []"
  shows "filter (\<lambda>r. key (last (take n ys)) < (key r :: 'k::linorder)) ys = drop n ys"
  using assms
proof (induction ys arbitrary: n)
  case Nil
  then show ?case by simp
next
  case (Cons y ys)
  then obtain m where n: "n = Suc m" by (cases n) auto
  show ?case
  proof (cases "m = 0 \<or> ys = []")
    case True
    with Cons.prems n show ?thesis
      by (auto simp: filter_id_conv)
  next
    case False
    then have m0: "0 < m" and ne: "take m ys \<noteq> []" by auto
    have last_eq: "last (take n (y # ys)) = last (take m ys)"
      using n ne by simp
    have "last (take m ys) \<in> set (take m ys)"
      using ne by (rule last_in_set)
    then have "last (take m ys) \<in> set ys"
      by (rule in_set_takeD)
    then have "key y < key (last (take m ys))"
      using Cons.prems(1) by simp
    moreover have "filter (\<lambda>r. key (last (take m ys)) < key r) ys = drop m ys"
      using Cons.IH [OF _ m0 ne] Cons.prems(1) by simp
    ultimately show ?thesis
      using last_eq n by simp
  qed
qed

subsection \<open>Pieces of a list\<close>

lemma chunks_Nil [simp]: "chunks n [] = []"
  by (simp add: chunks.simps)

lemma chunks_Cons: "0 < n \<Longrightarrow> xs \<noteq> [] \<Longrightarrow> chunks n xs = take n xs # chunks n (drop n xs)"
  by (simp add: chunks.simps [of n xs])

lemma concat_chunks: "0 < n \<Longrightarrow> concat (chunks n xs) = xs"
proof (induction n xs rule: chunks.induct)
  case (1 n xs)
  show ?case
  proof (cases "xs = []")
    case False
    with "1.prems" "1.IH" show ?thesis by (simp add: chunks_Cons)
  qed simp
qed

lemma concat_map_map_chunks: "0 < n \<Longrightarrow> concat (map (map f) (chunks n xs)) = map f xs"
  by (simp add: map_concat [symmetric] concat_chunks)

lemma fold_max_Max: "fold max xs (c::'a::linorder) = Max (insert c (set xs))"
  by (simp add: Max.set_eq_fold [symmetric])

lemma fold_max_filter_gt:
  fixes c0 c1 :: "'a::linorder"
  assumes "c0 \<le> c1" and "c1 \<le> fold max xs c0"
  shows "fold max (filter (\<lambda>x. c1 < x) xs) c1 = fold max xs c0"
proof (rule antisym)
  show "fold max (filter (\<lambda>x. c1 < x) xs) c1 \<le> fold max xs c0"
    using assms(2) by (auto simp: fold_max_Max)
  show "fold max xs c0 \<le> fold max (filter (\<lambda>x. c1 < x) xs) c1"
    unfolding fold_max_Max
  proof (rule Max.boundedI)
    fix x assume "x \<in> insert c0 (set xs)"
    then show "x \<le> Max (insert c1 (set (filter (\<lambda>x. c1 < x) xs)))"
      using assms(1) by (cases "c1 < x") (auto simp: Max_ge_iff)
  qed simp_all
qed

lemma fold_max_take_le: "fold max (take k xs) (c::'a::linorder) \<le> fold max xs c"
  unfolding fold_max_Max by (rule Max_mono) (auto dest: in_set_takeD)

lemma list_all2_Inr_in_set:
  "list_all2 (\<lambda>x t. f x = Inr t) xs ts \<Longrightarrow> x \<in> set xs \<Longrightarrow> f x = Inr t \<Longrightarrow> t \<in> set ts"
  by (induction xs ts rule: list_all2_induct) auto

end
