(* ===== verification/Python_Values.thy ===== *)
theory Python_Values
  imports Prelude
begin

text \<open>
  The Python values that \<open>get_data\<close> handles (src/hyperliquid/__init__.py): the value
  \<open>response.json()\<close> decodes, a JSON document, plus the \<open>datetime\<close> object that the client
  stores under \<open>"timestamp"\<close>; and the exceptions that the client and the generator can
  raise. A JSON object is a Python dict, an association list in insertion order (the
  order Python 3.7+ dicts keep); JSON numbers are integers (the API's \<open>time\<close> is an
  integer; fractional numbers never reach the modelled code paths, the API sends
  rates as strings). Python's truth test, item lookup and numeric reading of a value
  are written out per kind of value, with the exception each raises.
\<close>

datatype jval =
    JNull
  | JBool bool
  | JInt int
  | JStr string
  | JArr "jval list"
  | JObj "(string \<times> jval) list"
  | JDatetime timestamp  \<comment> \<open>\<open>datetime.fromtimestamp(t / 1000)\<close>, kept as its epoch milliseconds \<open>t\<close>\<close>

text \<open>
  The exceptions. The first three are the \<open>RequestException\<close>s that \<open>get_data\<close> re-raises
  from its three handlers, with the data each message formats; the others escape
  \<open>get_data\<close>'s handlers (they are no \<open>RequestException\<close>) and, in the incremental
  cursor, dlt's error for a row without the cursor field.
\<close>

datatype py_error =
    Request_Timeout symbol                    \<comment> \<open>"Request timed out for asset {asset}"\<close>
  | Request_HTTP_Error symbol timestamp nat   \<comment> \<open>asset, cursor, status code\<close>
  | Request_Failed symbol string              \<comment> \<open>"Request failed for asset {asset}: {e}"\<close>
  | Key_Error string
  | Type_Error
  | Value_Error timestamp                     \<comment> \<open>\<open>fromtimestamp\<close>: year out of range\<close>
  | Cursor_Path_Missing string                \<comment> \<open>dlt incremental: row lacks the cursor column\<close>

fun is_request_exception :: "py_error \<Rightarrow> bool" where
  "is_request_exception (Request_Timeout _) = True"
| "is_request_exception (Request_HTTP_Error _ _ _) = True"
| "is_request_exception (Request_Failed _ _) = True"
| "is_request_exception _ = False"

text \<open>Python's truth value of a decoded body (\<open>if not results\<close>).\<close>

fun py_truthy :: "jval \<Rightarrow> bool" where
  "py_truthy JNull = False"
| "py_truthy (JBool b) = b"
| "py_truthy (JInt i) = (i \<noteq> 0)"
| "py_truthy (JStr s) = (s \<noteq> [])"
| "py_truthy (JArr xs) = (xs \<noteq> [])"
| "py_truthy (JObj kvs) = (kvs \<noteq> [])"
| "py_truthy (JDatetime _) = True"

text \<open>
  \<open>v[k]\<close> for a string key: a dict answers or raises \<open>KeyError\<close>; a list or a string
  raises \<open>TypeError\<close> (indices must be integers), any other value is not subscriptable.
\<close>

fun py_getitem :: "jval \<Rightarrow> string \<Rightarrow> py_error + jval" where
  "py_getitem (JObj kvs) k = (case map_of kvs k of None \<Rightarrow> Inl (Key_Error k) | Some v \<Rightarrow> Inr v)"
| "py_getitem _ k = Inl Type_Error"

text \<open>
  The number a value denotes in \<open>v / 1000\<close> and in comparisons: an int, or a bool
  (Python's \<open>bool\<close> is a subclass of \<open>int\<close>); anything else raises \<open>TypeError\<close>.
\<close>

fun py_num :: "jval \<Rightarrow> py_error + int" where
  "py_num (JInt i) = Inr i"
| "py_num (JBool b) = Inr (of_bool b)"
| "py_num _ = Inl Type_Error"

text \<open>\<open>d[k] = v\<close> on a dict: overwrite in place, or append a new key.\<close>

definition dict_set :: "string \<Rightarrow> jval \<Rightarrow> (string \<times> jval) list \<Rightarrow> (string \<times> jval) list" where
  "dict_set k v kvs = AList.update k v kvs"

lemma map_of_dict_set [simp]: "map_of (dict_set k v kvs) = (map_of kvs)(k \<mapsto> v)"
  by (simp add: dict_set_def update_conv')

lemma py_getitem_Inr:
  "py_getitem v k = Inr x \<longleftrightarrow> (\<exists>kvs. v = JObj kvs \<and> map_of kvs k = Some x)"
  by (cases v) (auto split: option.splits)

end
