(* ===== verification/ApiClient.thy ===== *)
theory ApiClient
  imports Python_Values
begin

text \<open>
  The API client, \<open>get_data\<close> and \<open>FundingHistoryResponse\<close> of
  src/hyperliquid/__init__.py (lines 24--28, 76--125). The network is a parameter, a
  \<open>transport\<close>: what one \<open>requests.post(API_URL, json=data, timeout=30)\<close> returns for a
  request body, a timeout, another transport failure, or a response with its status and
  body (a JSON document, or text that does not decode). Everything the client does with
  the answer is written out: \<open>raise_for_status\<close>, the decoding, the falsy-body early
  return, the decoration loop, \<open>results[-1]["time"]\<close>, and the three handlers that
  re-raise as \<open>RequestException\<close> (exceptions of the decoration loop are not caught).
\<close>

text \<open>
  The call \<open>requests.post(API_URL, headers=headers, json=data, timeout=30)\<close> of line
  100: the URL, the headers, the timeout in seconds, and the JSON body's three fields.
\<close>

record api_request =
  req_url :: string
  req_headers :: "(string \<times> string) list"
  req_timeout :: nat
  req_type :: string
  req_coin :: symbol
  req_startTime :: timestamp

datatype http_body = Json_Body jval | Invalid_Json string

datatype http_outcome =
    Timed_Out
  | Transport_Failure string
  | Http_Response nat http_body

type_synonym transport = "api_request \<Rightarrow> http_outcome"

record funding_history_response =
  data :: "jval list"
  last_time :: timestamp

definition API_URL :: string where
  "API_URL = ''https://api.hyperliquid.xyz/info''"

text \<open>The request of lines 90--100: the headers, the body \<open>data\<close>, and the call's arguments.\<close>

definition funding_history_request :: "symbol \<Rightarrow> timestamp \<Rightarrow> api_request" where
  "funding_history_request asset cursor =
     \<lparr>req_url = API_URL, req_headers = [(''Content-Type'', ''application/json'')], req_timeout = 30,
      req_type = ''fundingHistory'', req_coin = asset, req_startTime = cursor\<rparr>"

text \<open>\<open>Response.raise_for_status\<close> raises \<open>HTTPError\<close> for client and server errors only.\<close>

definition http_error_status :: "nat \<Rightarrow> bool" where
  "http_error_status s \<longleftrightarrow> 400 \<le> s \<and> s < 600"

text \<open>
  \<open>datetime.fromtimestamp(t / 1000)\<close> succeeds for the years 1 to 9999, that is for epoch
  milliseconds in this range (taken in UTC; the local zone offset is not modelled).
\<close>

definition fromtimestamp_ok :: "timestamp \<Rightarrow> bool" where
  "fromtimestamp_ok t \<longleftrightarrow> -62135596800000 \<le> t \<and> t < 253402300800000"

text \<open>\<open>result["time"]\<close> read as the number that \<open>/ 1000\<close> and the cursor compare.\<close>

definition time_field :: "jval \<Rightarrow> py_error + timestamp" where
  "time_field r = bind_result (py_getitem r ''time'') py_num"

text \<open>One iteration of the loop at lines 108--110.\<close>

definition decorate_result :: "jval \<Rightarrow> py_error + jval" where
  "decorate_result r =
     bind_result (time_field r) (\<lambda>t.
       if \<not> fromtimestamp_ok t then Inl (Value_Error t)
       else (case r of
               JObj kvs \<Rightarrow>
                 Inr (JObj (dict_set ''paired_coin'' (JStr ''USD'')
                             (dict_set ''timestamp'' (JDatetime t) kvs)))
             | _ \<Rightarrow> Inl Type_Error))"

fun decorate_results :: "jval list \<Rightarrow> py_error + jval list" where
  "decorate_results [] = Inr []"
| "decorate_results (r # rs) =
     bind_result (decorate_result r) (\<lambda>r'.
       bind_result (decorate_results rs) (\<lambda>rs'. Inr (r' # rs')))"

definition get_data :: "transport \<Rightarrow> symbol \<Rightarrow> timestamp \<Rightarrow> py_error + funding_history_response" where
  "get_data net asset cursor =
     (case net (funding_history_request asset cursor) of
        Timed_Out \<Rightarrow> Inl (Request_Timeout asset)
      | Transport_Failure msg \<Rightarrow> Inl (Request_Failed asset msg)
      | Http_Response status body \<Rightarrow>
          if http_error_status status then Inl (Request_HTTP_Error asset cursor status)
          else (case body of
                  Invalid_Json msg \<Rightarrow> Inl (Request_Failed asset msg)
                | Json_Body results \<Rightarrow>
                    if \<not> py_truthy results then Inr \<lparr>data = [], last_time = cursor\<rparr>
                    else (case results of
                            JArr rs \<Rightarrow>
                              bind_result (decorate_results rs) (\<lambda>rs'.
                                bind_result (time_field (last rs')) (\<lambda>lt.
                                  Inr \<lparr>data = rs', last_time = lt\<rparr>))
                          | _ \<Rightarrow> Inl Type_Error)))"

lemma funding_history_request_fields [simp]:
  "req_url (funding_history_request asset c) = API_URL"
  "req_timeout (funding_history_request asset c) = 30"
  "req_type (funding_history_request asset c) = ''fundingHistory''"
  "req_coin (funding_history_request asset c) = asset"
  "req_startTime (funding_history_request asset c) = c"
  by (simp_all add: funding_history_request_def)

subsection \<open>Decoration\<close>

text \<open>
  What one decorated record is: the same dict with \<open>"timestamp"\<close> and \<open>"paired_coin"\<close>
  set, every other field and the key order of the existing fields unchanged.
\<close>

definition decorated :: "jval \<Rightarrow> jval \<Rightarrow> bool" where
  "decorated r r' \<longleftrightarrow>
     (\<exists>kvs t. r = JObj kvs \<and> time_field r = Inr t \<and> fromtimestamp_ok t \<and>
        r' = JObj (dict_set ''paired_coin'' (JStr ''USD'') (dict_set ''timestamp'' (JDatetime t) kvs)))"

lemma time_field_JObj: "time_field (JObj kvs) = (case map_of kvs ''time'' of
     None \<Rightarrow> Inl (Key_Error ''time'') | Some v \<Rightarrow> py_num v)"
  by (simp add: time_field_def split: option.splits)

lemma time_field_Inr_JObj: "time_field r = Inr t \<Longrightarrow> \<exists>kvs. r = JObj kvs"
  by (auto simp: time_field_def result_simps py_getitem_Inr)

lemma decorate_result_Inr: "decorate_result r = Inr r' \<longleftrightarrow> decorated r r'"
proof (cases r)
  case (JObj kvs)
  then show ?thesis
    by (cases "time_field r") (auto simp: decorate_result_def decorated_def)
qed (simp_all add: decorate_result_def decorated_def time_field_def)

lemma decorated_time_field: "decorated r r' \<Longrightarrow> time_field r' = time_field r"
  by (auto simp: decorated_def time_field_JObj)

lemma decorated_lookup:
  assumes "decorated r r'"
  shows "\<exists>kvs kvs' t. r = JObj kvs \<and> r' = JObj kvs' \<and> time_field r = Inr t \<and>
           map_of kvs' = (map_of kvs)(''timestamp'' \<mapsto> JDatetime t, ''paired_coin'' \<mapsto> JStr ''USD'')"
  using assms by (auto simp: decorated_def)

lemma decorate_results_Inr:
  "decorate_results rs = Inr rs' \<longleftrightarrow> list_all2 decorated rs rs'"
proof (induction rs arbitrary: rs')
  case Nil
  then show ?case by auto
next
  case (Cons r rs)
  then show ?case
    by (cases rs') (auto simp: result_simps decorate_result_Inr)
qed

lemma decorate_results_Inl:
  "decorate_results rs = Inl e \<Longrightarrow> \<exists>r \<in> set rs. \<exists>e'. decorate_result r = Inl e'"
  by (induction rs) (auto simp: result_simps split: sum.splits)

lemma decorate_results_length: "decorate_results rs = Inr rs' \<Longrightarrow> length rs' = length rs"
  by (simp add: decorate_results_Inr list_all2_lengthD)

lemma decorate_results_times:
  "decorate_results rs = Inr rs' \<Longrightarrow> map time_field rs' = map time_field rs"
  by (induction rs arbitrary: rs')
     (auto simp: result_simps decorate_result_Inr decorated_time_field)

subsection \<open>Behaviour of get\_data\<close>

lemma get_data_Inr_cases:
  assumes "get_data net asset c = Inr resp"
  obtains s v where "net (funding_history_request asset c) = Http_Response s (Json_Body v)"
    and "\<not> http_error_status s"
    and "\<not> py_truthy v" and "resp = \<lparr>data = [], last_time = c\<rparr>"
  | s rs where "net (funding_history_request asset c) = Http_Response s (Json_Body (JArr rs))"
    and "\<not> http_error_status s" and "rs \<noteq> []"
    and "decorate_results rs = Inr (data resp)"
    and "time_field (last (data resp)) = Inr (last_time resp)"
  using assms
  by (auto simp: get_data_def result_simps split: http_outcome.splits http_body.splits
           if_splits jval.splits)

text \<open>
  C4. \<open>get_data\<close> succeeds exactly when the one request it makes is answered with a
  status below 400 (or 600 and above) and a JSON body, and then either the body is falsy
  and the result is empty with \<open>last_time\<close> the requested cursor (no progress), or the
  body is a non-empty JSON array whose records are all decorated into \<open>data\<close>, and
  \<open>last_time\<close> is the time of the last record.
\<close>

theorem get_data_Inr_iff:
  "get_data net asset c = Inr resp \<longleftrightarrow>
     (\<exists>s v. net (funding_history_request asset c) = Http_Response s (Json_Body v) \<and>
        \<not> http_error_status s \<and>
        (if py_truthy v
         then (\<exists>rs. v = JArr rs \<and> list_all2 decorated rs (data resp) \<and>
                    time_field (last (data resp)) = Inr (last_time resp))
         else resp = \<lparr>data = [], last_time = c\<rparr>))" (is "?l \<longleftrightarrow> ?r")
proof
  assume ?l
  then show ?r
  proof (cases rule: get_data_Inr_cases)
    case (1 s v)
    then show ?thesis by auto
  next
    case (2 s rs)
    then show ?thesis by (auto simp: decorate_results_Inr)
  qed
next
  assume ?r
  then show ?l
    by (cases resp)
       (auto simp: get_data_def decorate_results_Inr [symmetric] split: if_splits)
qed

theorem get_data_Inr_iff_witness:
  "get_data (\<lambda>_. Http_Response 200 (Json_Body (JArr [JObj [(''time'', JInt 7)]]))) ''BTC'' 5 =
     Inr \<lparr>data = [JObj [(''time'', JInt 7), (''timestamp'', JDatetime 7), (''paired_coin'', JStr ''USD'')]],
          last_time = 7\<rparr>"
  by (rule get_data_Inr_iff [THEN iffD2])
     (simp add: http_error_status_def decorated_def time_field_JObj dict_set_def fromtimestamp_ok_def)

text \<open>
  C5. When \<open>get_data\<close> raises, the exception is a \<open>RequestException\<close> exactly when the
  request timed out, failed in transport, was answered with an error status (400 to
  599), or was answered with a body that is not JSON; exceptions raised while decorating
  the records (a record that is no dict, has no \<open>"time"\<close>, a non-numeric or
  unrepresentable time) are not.
\<close>

theorem get_data_request_exception:
  assumes "get_data net asset c = Inl e"
  shows "is_request_exception e \<longleftrightarrow>
           (case net (funding_history_request asset c) of
              Timed_Out \<Rightarrow> True
            | Transport_Failure _ \<Rightarrow> True
            | Http_Response s b \<Rightarrow> http_error_status s \<or> (\<exists>m. b = Invalid_Json m))"
proof -
  have dec: "decorate_results rs = Inl e \<Longrightarrow> \<not> is_request_exception e" for rs
  proof (induction rs)
    case (Cons r rs)
    then show ?case
      by (auto simp: result_simps decorate_result_def time_field_def py_getitem.elims
               split: sum.splits if_splits jval.splits option.splits
               elim!: py_num.elims py_getitem.elims)
  qed simp
  have tf: "time_field r = Inl e \<Longrightarrow> \<not> is_request_exception e" for r
    by (auto simp: time_field_def result_simps elim!: py_num.elims py_getitem.elims
             split: option.splits)
  show ?thesis
    using assms
    by (auto simp: get_data_def result_simps dest: dec tf
             split: http_outcome.splits http_body.splits if_splits jval.splits)
qed

theorem get_data_request_exception_witness:
  "is_request_exception (Request_Timeout ''BTC'') \<and>
   \<not> is_request_exception (Key_Error ''time'')"
proof -
  have t: "get_data (\<lambda>_. Timed_Out) ''BTC'' 5 = Inl (Request_Timeout ''BTC'')"
    by (simp add: get_data_def)
  have k: "get_data (\<lambda>_. Http_Response 200 (Json_Body (JArr [JObj []]))) ''BTC'' 5 =
             Inl (Key_Error ''time'')"
    by (simp add: get_data_def http_error_status_def decorate_result_def time_field_JObj)
  from get_data_request_exception [OF t] get_data_request_exception [OF k]
  show ?thesis by (simp add: http_error_status_def)
qed

end
