(* ===== verification/Incremental.thy ===== *)
theory Incremental
  imports ApiClient
begin

text \<open>
  The cursor the generator reads, \<open>dlt.sources.incremental("time", initial_value=START_TIME)\<close>
  (src/hyperliquid/__init__.py, lines 21 and 41). The cursor belongs to dlt, a library
  the source only calls: its behaviour is modelled from the spec (the cursor is "the
  highest time value already delivered", or the initial constant) and from dlt's
  documented semantics for the default \<open>last_value_func = max\<close>. At the start of a run
  the cursor reads the persisted value, or \<open>START_TIME\<close> when there is none;
  \<open>start_value\<close> keeps that value for the whole run. Every batch the generator yields
  passes through the cursor before the generator resumes: rows whose time is below
  \<open>start_value\<close> are dropped, and \<open>last_value\<close> becomes the maximum of itself and the
  kept rows' times. (dlt also drops a row whose time equals \<open>start_value\<close> when the
  row's hash was stored with that value; that deduplication is not modelled: the
  generator always asks for times after \<open>last_value\<close>, so such a row is never served
  by an API that honours \<open>startTime\<close>.)
\<close>

definition START_TIME :: timestamp where
  "START_TIME = 1683849600047"

record incremental =
  start_value :: timestamp
  last_value :: timestamp

definition incremental_start :: "timestamp option \<Rightarrow> incremental" where
  "incremental_start stored =
     (let v = (case stored of None \<Rightarrow> START_TIME | Some v \<Rightarrow> v)
      in \<lparr>start_value = v, last_value = v\<rparr>)"

text \<open>The cursor column of a row: dlt raises when a row has no \<open>"time"\<close>.\<close>

definition row_cursor :: "jval \<Rightarrow> py_error + timestamp" where
  "row_cursor r =
     (case r of
        JObj kvs \<Rightarrow> (case map_of kvs ''time'' of
                       None \<Rightarrow> Inl (Cursor_Path_Missing ''time'')
                     | Some v \<Rightarrow> py_num v)
      | _ \<Rightarrow> Inl (Cursor_Path_Missing ''time''))"

fun incr_rows :: "incremental \<Rightarrow> jval list \<Rightarrow> py_error + (jval list \<times> incremental)" where
  "incr_rows st [] = Inr ([], st)"
| "incr_rows st (r # rs) =
     bind_result (row_cursor r) (\<lambda>t.
       if t < start_value st then incr_rows st rs
       else bind_result (incr_rows (st\<lparr>last_value := max (last_value st) t\<rparr>) rs)
              (\<lambda>(kept, st'). Inr (r # kept, st')))"

text \<open>The cursor never moves backwards, and a run never changes its \<open>start_value\<close>.\<close>

definition cursor_wf :: "incremental \<Rightarrow> bool" where
  "cursor_wf st \<longleftrightarrow> start_value st \<le> last_value st"

lemma cursor_wf_start [simp]: "cursor_wf (incremental_start stored)"
  by (simp add: cursor_wf_def incremental_start_def Let_def)

lemma row_cursor_Inr: "row_cursor r = Inr t \<longleftrightarrow> time_field r = Inr t"
  by (cases r) (simp_all add: row_cursor_def time_field_def split: option.splits)

lemma incr_rows_mono:
  "incr_rows st rs = Inr (kept, st') \<Longrightarrow>
     last_value st \<le> last_value st' \<and> start_value st' = start_value st"
proof (induction st rs arbitrary: kept rule: incr_rows.induct)
  case (1 st)
  then show ?case by simp
next
  case (2 st r rs)
  show ?case
  proof (cases "row_cursor r")
    case (Inl e)
    with "2.prems" show ?thesis by simp
  next
    case (Inr t)
    show ?thesis
    proof (cases "t < start_value st")
      case True
      with Inr "2.prems" "2.IH"(1) [OF True] show ?thesis by simp
    next
      case False
      with Inr "2.prems" obtain kept' where
        rec: "incr_rows (st\<lparr>last_value := max (last_value st) t\<rparr>) rs = Inr (kept', st')"
        by (auto simp: result_simps)
      from "2.IH"(2) [OF False rec] show ?thesis by simp
    qed
  qed
qed

lemma incr_rows_cursor_wf:
  "incr_rows st rs = Inr (kept, st') \<Longrightarrow> cursor_wf st \<Longrightarrow> cursor_wf st'"
  unfolding cursor_wf_def by (drule incr_rows_mono) simp

lemma incr_rows_all_kept:
  assumes "list_all2 (\<lambda>r t. time_field r = Inr t) rs ts"
    and "\<forall>t \<in> set ts. start_value st \<le> t"
  shows "incr_rows st rs = Inr (rs, st\<lparr>last_value := fold max ts (last_value st)\<rparr>)"
  using assms
proof (induction rs arbitrary: ts st)
  case Nil
  then show ?case by simp
next
  case (Cons r rs)
  then obtain t ts' where ts: "ts = t # ts'" and t: "time_field r = Inr t"
    and rest: "list_all2 (\<lambda>r t. time_field r = Inr t) rs ts'"
    by (cases ts) auto
  have rc: "row_cursor r = Inr t" using t by (simp add: row_cursor_Inr)
  have "incr_rows (st\<lparr>last_value := max (last_value st) t\<rparr>) rs =
          Inr (rs, st\<lparr>last_value := fold max ts' (max (last_value st) t)\<rparr>)"
    using Cons.IH [OF rest] Cons.prems(2) ts by simp
  with Cons.prems(2) ts rc show ?case
    by (simp add: max.commute)
qed

lemma incr_rows_kept:
  "incr_rows st rs = Inr (kept, st') \<Longrightarrow>
     \<exists>ts. list_all2 (\<lambda>x t. time_field x = Inr t) kept ts \<and>
          (\<forall>t \<in> set ts. start_value st \<le> t) \<and>
          last_value st' = fold max ts (last_value st) \<and> start_value st' = start_value st"
proof (induction st rs arbitrary: kept rule: incr_rows.induct)
  case (1 st)
  then show ?case by simp
next
  case (2 st r rs)
  show ?case
  proof (cases "row_cursor r")
    case (Inl e)
    with "2.prems" show ?thesis by simp
  next
    case (Inr t)
    show ?thesis
    proof (cases "t < start_value st")
      case True
      with Inr "2.prems" "2.IH"(1) [OF True] show ?thesis by simp
    next
      case False
      with Inr "2.prems" obtain kept' where
        rec: "incr_rows (st\<lparr>last_value := max (last_value st) t\<rparr>) rs = Inr (kept', st')"
        and kept: "kept = r # kept'"
        by (auto simp: result_simps)
      from "2.IH"(2) [OF False rec] obtain ts where
        ts: "list_all2 (\<lambda>x t. time_field x = Inr t) kept' ts"
            "\<forall>t \<in> set ts. start_value st \<le> t"
            "last_value st' = fold max ts (max (last_value st) t)"
            "start_value st' = start_value st"
        by auto
      have "time_field r = Inr t" using Inr by (simp add: row_cursor_Inr)
      with ts kept False show ?thesis
        by (intro exI [of _ "t # ts"]) (auto simp: max.commute)
    qed
  qed
qed

lemma incr_rows_kept_subset:
  "incr_rows st rs = Inr (kept, st') \<Longrightarrow> set kept \<subseteq> set rs"
proof (induction st rs arbitrary: kept rule: incr_rows.induct)
  case (2 st r rs)
  show ?case
  proof (cases "row_cursor r")
    case (Inr t)
    show ?thesis
    proof (cases "t < start_value st")
      case True
      with Inr "2.prems" "2.IH"(1) [OF True] show ?thesis by auto
    next
      case False
      with Inr "2.prems" obtain kept' where
        rec: "incr_rows (st\<lparr>last_value := max (last_value st) t\<rparr>) rs = Inr (kept', st')"
        and kept: "kept = r # kept'"
        by (auto simp: result_simps)
      from "2.IH"(2) [OF False rec] kept show ?thesis by auto
    qed
  qed (use "2.prems" in simp)
qed simp

lemma incr_rows_kept_time:
  assumes "incr_rows st rs = Inr (kept, st')" and "x \<in> set kept" and "time_field x = Inr t"
  shows "start_value st \<le> t \<and> t \<le> last_value st'"
proof -
  from incr_rows_kept [OF assms(1)] obtain ts where
    ts: "list_all2 (\<lambda>x t. time_field x = Inr t) kept ts" "\<forall>t \<in> set ts. start_value st \<le> t"
        "last_value st' = fold max ts (last_value st)"
    by blast
  from list_all2_Inr_in_set [OF ts(1) assms(2,3)] have "t \<in> set ts" .
  with ts(2,3) show ?thesis by (simp add: fold_max_ge_elem)
qed

lemma incr_rows_advances:
  assumes "incr_rows st rs = Inr (kept, st')" and "rs \<noteq> []"
    and "\<forall>x \<in> set rs. \<forall>t. time_field x = Inr t \<longrightarrow> last_value st < t" and "cursor_wf st"
  shows "last_value st < last_value st'"
proof -
  obtain r rs' where rs: "rs = r # rs'" using assms(2) by (cases rs) auto
  from assms(1) rs obtain t where rc: "row_cursor r = Inr t"
    by (cases "row_cursor r") simp_all
  then have "time_field r = Inr t" by (simp add: row_cursor_Inr)
  with assms(3) rs have lt: "last_value st < t" by simp
  with assms(4) have "\<not> t < start_value st" by (simp add: cursor_wf_def)
  with assms(1) rs rc lt obtain kept' where
    "incr_rows (st\<lparr>last_value := t\<rparr>) rs' = Inr (kept', st')"
    by (auto simp: bind_result_eq_Inr max_def split: if_splits)
  from incr_rows_mono [OF this] lt show ?thesis by simp
qed

end
