(* ===== verification/Resource.thy ===== *)
theory Resource
  imports Incremental
begin

text \<open>
  The per-asset generator \<open>hyperliquid_resource\<close> (src/hyperliquid/__init__.py,
  lines 39--63). It asks \<open>get_data\<close> for the records after \<open>cursor.last_value\<close>, stops
  on an empty page, yields a non-empty page and asks again, forever (\<open>while True\<close>).
  An exception of \<open>get_data\<close> propagates: the first call is outside any \<open>try\<close>, the
  loop's \<open>except RequestException: raise\<close> re-raises, and exceptions of other classes
  are not caught at all. Each yielded page passes through the incremental cursor
  (theory Incremental) before the generator resumes, so the next request starts after
  the new \<open>last_value\<close>.

  The network may answer differently from one call to the next (records arrive, a call
  times out), so it is a function of the call's index: \<open>net n\<close> is the transport the
  \<open>n\<close>-th request of the run meets. The loop need not end (a server that never answers
  an empty page keeps it going), so it is a \<open>partial_function (option)\<close>: \<open>None\<close> is
  "does not return". A run that returns gives the batches delivered to the sink (the
  pages after the cursor's filter), how the stream ended, the cursor, and the number
  of requests made.
\<close>

type_synonym network = "nat \<Rightarrow> transport"

datatype stream_end = Exhausted | Failed py_error

record stream_result =
  batches :: "jval list list"
  outcome :: stream_end
  cursor :: incremental
  requests :: nat

definition emit :: "jval list \<Rightarrow> stream_result \<Rightarrow> stream_result" where
  "emit kept r = r\<lparr>batches := kept # batches r\<rparr>"

definition stop :: "stream_end \<Rightarrow> incremental \<Rightarrow> nat \<Rightarrow> stream_result" where
  "stop e st n = \<lparr>batches = [], outcome = e, cursor = st, requests = n\<rparr>"

text \<open>The \<open>while True\<close> loop of lines 53--63, from request number \<open>n\<close> on.\<close>

partial_function (option) resource_while ::
  "network \<Rightarrow> symbol \<Rightarrow> nat \<Rightarrow> incremental \<Rightarrow> stream_result option"
where
  "resource_while net asset n st =
     (case get_data (net n) asset (last_value st + 1) of
        Inl e \<Rightarrow> Some (stop (Failed e) st (Suc n))
      | Inr resp \<Rightarrow>
          if data resp = [] then Some (stop Exhausted st (Suc n))
          else (case incr_rows st (data resp) of
                  Inl e \<Rightarrow> Some (stop (Failed e) st (Suc n))
                | Inr (kept, st') \<Rightarrow>
                    Option.bind (resource_while net asset (Suc n) st')
                      (\<lambda>r. Some (emit kept r))))"

text \<open>The whole generator: the first request (lines 47--52), then the loop.\<close>

definition hyperliquid_resource :: "network \<Rightarrow> symbol \<Rightarrow> incremental \<Rightarrow> stream_result option" where
  "hyperliquid_resource net asset st =
     (case get_data (net 0) asset (last_value st + 1) of
        Inl e \<Rightarrow> Some (stop (Failed e) st 1)
      | Inr resp \<Rightarrow>
          if data resp = [] then Some (stop Exhausted st 1)
          else (case incr_rows st (data resp) of
                  Inl e \<Rightarrow> Some (stop (Failed e) st 1)
                | Inr (kept, st') \<Rightarrow>
                    Option.bind (resource_while net asset 1 st') (\<lambda>r. Some (emit kept r))))"

lemma emit_fields [simp]:
  "batches (emit kept r) = kept # batches r"
  "outcome (emit kept r) = outcome r"
  "cursor (emit kept r) = cursor r"
  "requests (emit kept r) = requests r"
  by (simp_all add: emit_def)

lemma stop_fields [simp]:
  "batches (stop e st n) = []"
  "outcome (stop e st n) = e"
  "cursor (stop e st n) = st"
  "requests (stop e st n) = n"
  by (simp_all add: stop_def)

subsection \<open>Reasoning about the loop\<close>

text \<open>
  An induction rule for runs that return: one case per way the loop body ends, and the
  emitting case with the hypothesis for the rest of the run.
\<close>

lemma resource_while_induct [consumes 1, case_names fetch_failed exhausted cursor_failed emitted]:
  assumes run: "resource_while net asset n st = Some r"
    and fetch_failed: "\<And>n st e. get_data (net n) asset (last_value st + 1) = Inl e \<Longrightarrow>
           P n st (stop (Failed e) st (Suc n))"
    and exhausted: "\<And>n st resp. get_data (net n) asset (last_value st + 1) = Inr resp \<Longrightarrow>
           data resp = [] \<Longrightarrow> P n st (stop Exhausted st (Suc n))"
    and cursor_failed: "\<And>n st resp e. get_data (net n) asset (last_value st + 1) = Inr resp \<Longrightarrow>
           data resp \<noteq> [] \<Longrightarrow> incr_rows st (data resp) = Inl e \<Longrightarrow>
           P n st (stop (Failed e) st (Suc n))"
    and emitted: "\<And>n st resp kept st' r. get_data (net n) asset (last_value st + 1) = Inr resp \<Longrightarrow>
           data resp \<noteq> [] \<Longrightarrow> incr_rows st (data resp) = Inr (kept, st') \<Longrightarrow>
           P (Suc n) st' r \<Longrightarrow> P n st (emit kept r)"
  shows "P n st r"
proof -
  have gen: "net' = net \<longrightarrow> asset' = asset \<longrightarrow> P n st r"
    if "resource_while net' asset' n st = Some r" for net' asset' n st r
  proof (rule resource_while.raw_induct
           [where P = "\<lambda>net' asset' n st r. net' = net \<longrightarrow> asset' = asset \<longrightarrow> P n st r"])
  fix f :: "network \<Rightarrow> symbol \<Rightarrow> nat \<Rightarrow> incremental \<Rightarrow> stream_result option"
    and net' asset' n st r
  assume IH: "\<And>net' asset' n st r. f net' asset' n st = Some r \<Longrightarrow>
                 net' = net \<longrightarrow> asset' = asset \<longrightarrow> P n st r"
    and body: "(case get_data (net' n) asset' (last_value st + 1) of
        Inl e \<Rightarrow> Some (stop (Failed e) st (Suc n))
      | Inr resp \<Rightarrow>
          if data resp = [] then Some (stop Exhausted st (Suc n))
          else (case incr_rows st (data resp) of
                  Inl e \<Rightarrow> Some (stop (Failed e) st (Suc n))
                | Inr (kept, st') \<Rightarrow>
                    Option.bind (f net' asset' (Suc n) st') (\<lambda>r. Some (emit kept r)))) = Some r"
  show "net' = net \<longrightarrow> asset' = asset \<longrightarrow> P n st r"
  proof (intro impI)
    assume eqs: "net' = net" "asset' = asset"
    show "P n st r"
    proof (cases "get_data (net n) asset (last_value st + 1)")
      case (Inl e)
      with body eqs show ?thesis by (auto intro: fetch_failed)
    next
      case (Inr resp)
      show ?thesis
      proof (cases "data resp = []")
        case True
        with Inr body eqs show ?thesis by (auto intro: exhausted)
      next
        case False
        show ?thesis
        proof (cases "incr_rows st (data resp)")
          case (Inl e)
          with Inr False body eqs show ?thesis by (auto intro: cursor_failed)
        next
          case (Inr p)
          obtain kept st' where p: "p = (kept, st')" by (cases p)
          from body eqs \<open>get_data (net n) asset (last_value st + 1) = Inr resp\<close> False Inr p
          obtain r' where r': "f net asset (Suc n) st' = Some r'" and r: "r = emit kept r'"
            by (auto split: Option.bind_splits)
          from IH [OF r'] have "P (Suc n) st' r'" by simp
          with \<open>get_data (net n) asset (last_value st + 1) = Inr resp\<close> False Inr p r
          show ?thesis by (auto intro: emitted)
        qed
      qed
    qed
  qed
  next
    show "resource_while net' asset' n st = Some r" by (rule that)
  qed
  from gen [OF run] show ?thesis by simp
qed

subsection \<open>Properties of every run that returns\<close>

lemma hyperliquid_resource_while:
  "hyperliquid_resource net asset st = resource_while net asset 0 st"
  by (subst resource_while.simps) (simp only: hyperliquid_resource_def One_nat_def)

lemma resource_while_requests:
  "resource_while net asset n st = Some r \<Longrightarrow> requests r = n + length (batches r) + 1"
  by (induction rule: resource_while_induct) simp_all

lemma resource_while_cursor:
  "resource_while net asset n st = Some r \<Longrightarrow>
     \<exists>ts. list_all2 (\<lambda>x t. time_field x = Inr t) (concat (batches r)) ts \<and>
          (\<forall>t \<in> set ts. start_value st \<le> t) \<and>
          last_value (cursor r) = fold max ts (last_value st) \<and>
          start_value (cursor r) = start_value st"
proof (induction rule: resource_while_induct)
  case (emitted n st resp kept st' r)
  from incr_rows_kept [OF emitted(3)] obtain ts1 where
    ts1: "list_all2 (\<lambda>x t. time_field x = Inr t) kept ts1"
         "\<forall>t \<in> set ts1. start_value st \<le> t"
         "last_value st' = fold max ts1 (last_value st)" "start_value st' = start_value st"
    by blast
  from emitted(4) obtain ts2 where
    ts2: "list_all2 (\<lambda>x t. time_field x = Inr t) (concat (batches r)) ts2"
         "\<forall>t \<in> set ts2. start_value st' \<le> t"
         "last_value (cursor r) = fold max ts2 (last_value st')" "start_value (cursor r) = start_value st'"
    by blast
  from ts1 ts2 show ?case
    by (intro exI [of _ "ts1 @ ts2"]) (auto intro: list_all2_appendI)
qed simp_all

lemma resource_while_outcome:
  "resource_while net asset n st = Some r \<Longrightarrow>
     (outcome r = Exhausted \<longrightarrow>
        (\<exists>resp. get_data (net (requests r - 1)) asset (last_value (cursor r) + 1) = Inr resp \<and>
               data resp = [])) \<and>
     (\<forall>e. outcome r = Failed e \<longrightarrow>
        get_data (net (requests r - 1)) asset (last_value (cursor r) + 1) = Inl e \<or>
        (\<exists>resp. get_data (net (requests r - 1)) asset (last_value (cursor r) + 1) = Inr resp \<and>
               incr_rows (cursor r) (data resp) = Inl e))"
  by (induction rule: resource_while_induct) auto

lemma resource_cursor_mono:
  "hyperliquid_resource net asset st = Some r \<Longrightarrow> last_value st \<le> last_value (cursor r)"
  using resource_while_cursor [of net asset 0 st r]
  by (auto simp: hyperliquid_resource_while)

end
