(* ===== verification/Pipeline.thy ===== *)
theory Pipeline
  imports Resource
begin

text \<open>
  The source aggregator \<open>hyperliquid_source\<close> (src/hyperliquid/__init__.py, lines
  20 and 66--73) and the one statement of the pipeline entry \<open>load_hyperliquid\<close>
  (src/hyperliquid_pipeline.py) that acts on data, \<open>pipeline.run(hyperliquid_source())\<close>
  of line 36; the rest of the function configures the destination or prints. The
  aggregator makes one dlt resource per asset of \<open>ASSETS\<close>, named \<open>asset.lower() + "_usd"\<close>, with merge write disposition and
  primary key \<open>"time"\<close>. The entry runs the source once through a dlt pipeline.

  What \<open>pipeline.run\<close> does with the resources is dlt's, modelled from the spec and
  dlt's documented behaviour: each resource's cursor is read from the pipeline state
  (the persisted \<open>last_value\<close> of its incremental, \<open>START_TIME\<close> when absent); the
  resources are extracted one after the other; the extracted batches are merged into
  the destination table of the resource by primary key (upsert, the later row wins),
  and the new cursors are committed together with the data. The extract step is
  all-or-nothing: an exception in any resource makes \<open>pipeline.run\<close> raise, nothing of
  the run is loaded and no cursor moves (\<open>load_hyperliquid\<close> has no handler, so the
  process fails). The network is one transport sequence per asset, as the streams
  share no state.
\<close>

definition ASSETS :: "symbol list" where
  "ASSETS = [''BTC'', ''ETH'', ''HYPE'', ''SOL'', ''DOGE'', ''FARTCOIN'']"

text \<open>
  \<open>str.lower\<close> on the model's characters, which are the 256 code points of Latin-1:
  Python maps A--Z, \<open>\<Agrave>\<close>--\<open>\<Ouml>\<close> and \<open>\<Oslash>\<close>--\<open>\<Thorn>\<close> (65--90, 192--214, 216--222) to the
  letter 32 above and leaves every other code point of this range as it is. Symbols
  with characters beyond Latin-1 are outside the model.
\<close>

definition py_upper_char :: "char \<Rightarrow> bool" where
  "py_upper_char c \<longleftrightarrow>
     (65 \<le> (of_char c :: nat) \<and> (of_char c :: nat) \<le> 90) \<or>
     (192 \<le> (of_char c :: nat) \<and> (of_char c :: nat) \<le> 214) \<or>
     (216 \<le> (of_char c :: nat) \<and> (of_char c :: nat) \<le> 222)"

definition py_lower_char :: "char \<Rightarrow> char" where
  "py_lower_char c = (if py_upper_char c then char_of (of_char c + (32 :: nat)) else c)"

text \<open>The lowercase letters \<open>str.lower\<close> maps an uppercase letter to.\<close>

definition py_lowered_char :: "char \<Rightarrow> bool" where
  "py_lowered_char c \<longleftrightarrow>
     (97 \<le> (of_char c :: nat) \<and> (of_char c :: nat) \<le> 122) \<or>
     (224 \<le> (of_char c :: nat) \<and> (of_char c :: nat) \<le> 246) \<or>
     (248 \<le> (of_char c :: nat) \<and> (of_char c :: nat) \<le> 254)"

definition py_lower :: "string \<Rightarrow> string" where
  "py_lower s = map py_lower_char s"

record dlt_resource =
  res_name :: string
  write_disposition :: string
  primary_key :: string
  res_asset :: symbol

definition resource_of :: "symbol \<Rightarrow> dlt_resource" where
  "resource_of asset =
     \<lparr>res_name = py_lower asset @ ''_usd'', write_disposition = ''merge'',
      primary_key = ''time'', res_asset = asset\<rparr>"

definition hyperliquid_source :: "symbol list \<Rightarrow> dlt_resource list" where
  "hyperliquid_source assets = map resource_of assets"

subsection \<open>Destination and pipeline state\<close>

type_synonym table = "timestamp \<rightharpoonup> jval"

record pipeline_state =
  cursors :: "string \<rightharpoonup> timestamp"
  tables :: "string \<Rightarrow> table"

text \<open>Merge on the primary key \<open>time\<close>: insert or replace, in delivery order.\<close>

fun merge_rows :: "table \<Rightarrow> jval list \<Rightarrow> table" where
  "merge_rows t [] = t"
| "merge_rows t (r # rs) =
     merge_rows (case time_field r of Inr k \<Rightarrow> t(k \<mapsto> r) | Inl _ \<Rightarrow> t) rs"

definition resource_cursor :: "pipeline_state \<Rightarrow> dlt_resource \<Rightarrow> incremental" where
  "resource_cursor ps res = incremental_start (cursors ps (res_name res))"

text \<open>Extraction: the resources in order; the first exception aborts the run.\<close>

fun extract_all ::
  "(symbol \<Rightarrow> network) \<Rightarrow> pipeline_state \<Rightarrow> dlt_resource list \<Rightarrow>
     (py_error + (dlt_resource \<times> stream_result) list) option"
where
  "extract_all net ps [] = Some (Inr [])"
| "extract_all net ps (res # rss) =
     Option.bind (hyperliquid_resource (net (res_asset res)) (res_asset res) (resource_cursor ps res))
       (\<lambda>r. case outcome r of
              Failed e \<Rightarrow> Some (Inl e)
            | Exhausted \<Rightarrow>
                (case extract_all net ps rss of
                   None \<Rightarrow> None
                 | Some (Inl e) \<Rightarrow> Some (Inl e)
                 | Some (Inr rs) \<Rightarrow> Some (Inr ((res, r) # rs))))"

definition commit_resource ::
  "pipeline_state \<Rightarrow> dlt_resource \<times> stream_result \<Rightarrow> pipeline_state" where
  "commit_resource ps x =
     (case x of (res, r) \<Rightarrow>
        ps\<lparr>cursors := (cursors ps)(res_name res \<mapsto> last_value (cursor r)),
           tables := (tables ps)(res_name res := merge_rows (tables ps (res_name res))
                                                   (concat (batches r)))\<rparr>)"

definition commit :: "pipeline_state \<Rightarrow> (dlt_resource \<times> stream_result) list \<Rightarrow> pipeline_state" where
  "commit ps xs = fold (\<lambda>x ps. commit_resource ps x) xs ps"

text \<open>The cursor value a resource of this name starts from.\<close>

definition stored_cursor :: "pipeline_state \<Rightarrow> string \<Rightarrow> timestamp" where
  "stored_cursor ps name = (case cursors ps name of None \<Rightarrow> START_TIME | Some v \<Rightarrow> v)"

text \<open>
  \<open>load_hyperliquid\<close>: run the source; on an exception the state is unchanged and the
  exception is the result, otherwise every resource's data and cursor are committed.
\<close>

definition load_hyperliquid ::
  "(symbol \<Rightarrow> network) \<Rightarrow> pipeline_state \<Rightarrow> ((py_error + unit) \<times> pipeline_state) option" where
  "load_hyperliquid net ps =
     map_option (\<lambda>x. case x of Inl e \<Rightarrow> (Inl e, ps) | Inr rs \<Rightarrow> (Inr (), commit ps rs))
       (extract_all net ps (hyperliquid_source ASSETS))"

text \<open>A fresh pipeline: no stored cursor, empty tables.\<close>

definition empty_state :: pipeline_state where
  "empty_state = \<lparr>cursors = Map.empty, tables = (\<lambda>_. Map.empty)\<rparr>"

subsection \<open>Resource names\<close>

lemma py_lower_char_upper:
  assumes "py_upper_char c"
  shows "of_char (py_lower_char c) = (of_char c + 32 :: nat) \<and> py_lowered_char (py_lower_char c)"
proof -
  define n where "n = (of_char c :: nat)"
  have b: "65 \<le> n \<and> n \<le> 90 \<or> 192 \<le> n \<and> n \<le> 214 \<or> 216 \<le> n \<and> n \<le> 222"
    using assms unfolding py_upper_char_def n_def .
  then have "n + 32 < 256" by linarith
  then have e: "of_char (py_lower_char c) = n + 32"
    using assms by (simp add: py_lower_char_def of_char_of n_def)
  have "py_lowered_char (py_lower_char c)"
    unfolding py_lowered_char_def e using b by linarith
  with e show ?thesis by (simp add: n_def)
qed
lemma py_lower_char_inj:
  assumes "\<not> py_lowered_char c" and "\<not> py_lowered_char d"
    and "py_lower_char c = py_lower_char d"
  shows "c = d"
proof (cases "py_upper_char c"; cases "py_upper_char d")
  assume "py_upper_char c" and "py_upper_char d"
  then have "(of_char (py_lower_char c) :: nat) = of_char c + 32"
    and "(of_char (py_lower_char d) :: nat) = of_char d + 32"
    using py_lower_char_upper by blast+
  moreover have "(of_char (py_lower_char c) :: nat) = of_char (py_lower_char d)"
    by (simp only: assms(3))
  ultimately have "(of_char c :: nat) = of_char d" by linarith
  then show ?thesis by (metis char_of_char)
next
  assume "py_upper_char c" and "\<not> py_upper_char d"
  then have "py_lower_char d = d" by (simp add: py_lower_char_def)
  with assms(2,3) py_lower_char_upper [OF \<open>py_upper_char c\<close>] show ?thesis by metis
next
  assume "\<not> py_upper_char c" and "py_upper_char d"
  then have "py_lower_char c = c" by (simp add: py_lower_char_def)
  with assms(1,3) py_lower_char_upper [OF \<open>py_upper_char d\<close>] show ?thesis by metis
next
  assume "\<not> py_upper_char c" and "\<not> py_upper_char d"
  with assms(3) show ?thesis by (simp add: py_lower_char_def)
qed

lemma py_lower_inj:
  assumes "\<forall>c \<in> set a. \<not> py_lowered_char c" and "\<forall>c \<in> set b. \<not> py_lowered_char c"
    and "py_lower a = py_lower b"
  shows "a = b"
  using assms
proof (induction a arbitrary: b)
  case Nil
  then show ?case by (simp add: py_lower_def)
next
  case (Cons c a)
  then obtain d b' where b: "b = d # b'" by (cases b) (auto simp: py_lower_def)
  with Cons.prems have "c = d" by (auto simp: py_lower_def intro: py_lower_char_inj)
  moreover from Cons.prems b have "a = b'" by (intro Cons.IH) (auto simp: py_lower_def)
  ultimately show ?case using b by simp
qed

text \<open>
  C9. For any list of distinct asset symbols none of which holds a lowercase letter
  (one that \<open>str.lower\<close> produces from an uppercase one), the resources' names
  \<open>asset.lower() + "_usd"\<close> are distinct: no two assets write to the same table or share
  a stored cursor.
\<close>

theorem source_names_distinct:
  assumes "distinct assets"
    and "\<forall>a \<in> set assets. \<forall>c \<in> set a. \<not> py_lowered_char c"
  shows "distinct (map res_name (hyperliquid_source assets))"
proof -
  have "inj_on (\<lambda>a. py_lower a @ ''_usd'') (set assets)"
    using assms(2) by (auto simp: inj_on_def intro: py_lower_inj)
  with assms(1) show ?thesis
    by (simp add: hyperliquid_source_def resource_of_def distinct_map comp_def)
qed

theorem source_names_distinct_witness:
  "distinct (map res_name (hyperliquid_source ASSETS))"
proof -
  have d: "distinct ASSETS" by code_simp
  have u: "\<forall>a \<in> set ASSETS. \<forall>c \<in> set a. \<not> py_lowered_char c"
    by code_simp
  from source_names_distinct [OF d u] show ?thesis .
qed

subsection \<open>The merge sink\<close>

lemma merge_rows_append [simp]: "merge_rows t (xs @ ys) = merge_rows (merge_rows t xs) ys"
  by (induction xs arbitrary: t) simp_all

lemma merge_rows_other:
  "\<forall>y \<in> set ys. time_field y \<noteq> Inr k \<Longrightarrow> merge_rows t ys k = t k"
  by (induction ys arbitrary: t) (auto split: sum.splits)

lemma merge_rows_last_write:
  assumes "distinct (map time_field xs)" and "x \<in> set xs" and "time_field x = Inr k"
  shows "merge_rows t xs k = Some x"
  using assms
proof (induction xs arbitrary: t)
  case Nil
  then show ?case by simp
next
  case (Cons y xs)
  show ?case
  proof (cases "x = y")
    case True
    with Cons.prems have "\<forall>z \<in> set xs. time_field z \<noteq> Inr k"
      by (auto simp: image_iff)
    with True Cons.prems show ?thesis by (simp add: merge_rows_other)
  next
    case False
    with Cons show ?thesis by simp
  qed
qed

lemma merge_rows_fixed:
  "\<forall>y \<in> set ys. \<forall>k. time_field y = Inr k \<longrightarrow> t k = Some y \<Longrightarrow> merge_rows t ys = t"
  by (induction ys) (auto simp: fun_upd_idem split: sum.splits)

lemma merge_rows_idem:
  assumes "distinct (map time_field xs)" and "set ys \<subseteq> set xs"
  shows "merge_rows (merge_rows t xs) ys = merge_rows t xs"
  using assms by (intro merge_rows_fixed) (auto intro: merge_rows_last_write)

subsection \<open>Extraction and commit\<close>

lemma last_value_resource_cursor [simp]:
  "last_value (resource_cursor ps res) = stored_cursor ps (res_name res)"
  by (simp add: resource_cursor_def incremental_start_def stored_cursor_def Let_def
           split: option.splits)

lemma commit_Nil [simp]: "commit ps [] = ps"
  by (simp add: commit_def)

lemma commit_Cons: "commit ps (x # xs) = commit (commit_resource ps x) xs"
  by (simp add: commit_def)

lemma commit_other:
  "n \<notin> res_name ` fst ` set xs \<Longrightarrow>
     cursors (commit ps xs) n = cursors ps n \<and> tables (commit ps xs) n = tables ps n"
  by (induction xs arbitrary: ps) (auto simp: commit_Cons commit_resource_def split: prod.splits)

lemma commit_at:
  assumes "distinct (map (res_name \<circ> fst) xs)" and "(res, r) \<in> set xs"
  shows "cursors (commit ps xs) (res_name res) = Some (last_value (cursor r)) \<and>
         tables (commit ps xs) (res_name res) =
           merge_rows (tables ps (res_name res)) (concat (batches r))"
  using assms
proof (induction xs arbitrary: ps)
  case Nil
  then show ?case by simp
next
  case (Cons x xs)
  show ?case
  proof (cases "x = (res, r)")
    case True
    with Cons.prems have "res_name res \<notin> res_name ` fst ` set xs"
      by (auto simp: image_iff)
    with True show ?thesis
      by (simp add: commit_Cons commit_other commit_resource_def)
  next
    case False
    with Cons.prems have xs: "(res, r) \<in> set xs" and d: "distinct (map (res_name \<circ> fst) xs)"
      by (auto simp: comp_def)
    from Cons.prems xs have "res_name (fst x) \<noteq> res_name res"
      by (auto simp: image_iff)
    then have "tables (commit_resource ps x) (res_name res) = tables ps (res_name res)"
      by (cases x) (simp add: commit_resource_def)
    with Cons.IH [OF d xs, of "commit_resource ps x"] show ?thesis
      by (simp add: commit_Cons)
  qed
qed

lemma commit_noop:
  "\<forall>(res, r) \<in> set xs. cursors ps (res_name res) = Some (last_value (cursor r)) \<and> concat (batches r) = [] \<Longrightarrow>
     commit ps xs = ps"
proof (induction xs)
  case Nil
  then show ?case by simp
next
  case (Cons x xs)
  obtain res r where x: "x = (res, r)" by (cases x)
  from Cons.prems x have c: "cursors ps (res_name res) = Some (last_value (cursor r))"
    and e: "concat (batches r) = []" by auto
  have "commit_resource ps x = ps"
    unfolding x commit_resource_def using c by (simp add: e fun_upd_idem)
  with Cons show ?case by (simp add: commit_Cons)
qed

subsection \<open>Runs of the pipeline\<close>

end
