(* ===== verification/Server.thy ===== *)
theory Server
  imports ApiClient
begin

text \<open>
  The remote funding-history endpoint, which is not code of this repository: it is
  modelled from the spec (section 6) as a transport. For each coin the server holds a
  history of funding records; a request \<open>{type: "fundingHistory", coin, startTime}\<close>
  is answered with status 200 and a JSON array of the records of that coin whose
  \<open>time\<close> is at least \<open>startTime\<close>, ascending, at most \<open>limit\<close> of them (the page size
  that makes pagination necessary); an empty array when there are none. A request of
  another type is refused with an HTTP error. A well-formed history has strictly
  increasing times that \<open>datetime\<close> can represent.
\<close>

record funding_row =
  row_coin :: symbol
  funding_rate :: string
  premium :: string
  row_time :: timestamp

type_synonym history = "symbol \<Rightarrow> funding_row list"

definition row_fields :: "funding_row \<Rightarrow> (string \<times> jval) list" where
  "row_fields r =
     [(''coin'', JStr (row_coin r)), (''fundingRate'', JStr (funding_rate r)),
      (''premium'', JStr (premium r)), (''time'', JInt (row_time r))]"

definition row_json :: "funding_row \<Rightarrow> jval" where
  "row_json r = JObj (row_fields r)"

definition serve_page :: "nat \<Rightarrow> history \<Rightarrow> api_request \<Rightarrow> funding_row list" where
  "serve_page limit hist req =
     take limit (filter (\<lambda>r. req_startTime req \<le> row_time r) (hist (req_coin req)))"

definition funding_server :: "nat \<Rightarrow> history \<Rightarrow> transport" where
  "funding_server limit hist req =
     (if req_type req = ''fundingHistory''
      then Http_Response 200 (Json_Body (JArr (map row_json (serve_page limit hist req))))
      else Http_Response 422 (Json_Body JNull))"

definition history_wf :: "history \<Rightarrow> symbol \<Rightarrow> bool" where
  "history_wf hist asset \<longleftrightarrow>
     sorted_wrt (\<lambda>x y. row_time x < row_time y) (hist asset) \<and>
     (\<forall>r \<in> set (hist asset). fromtimestamp_ok (row_time r))"

text \<open>What the client makes of a served record, and the records after a cursor.\<close>

definition decorated_row :: "funding_row \<Rightarrow> jval" where
  "decorated_row r =
     JObj (dict_set ''paired_coin'' (JStr ''USD'')
            (dict_set ''timestamp'' (JDatetime (row_time r)) (row_fields r)))"

definition rows_after :: "history \<Rightarrow> symbol \<Rightarrow> timestamp \<Rightarrow> funding_row list" where
  "rows_after hist asset c = filter (\<lambda>r. c < row_time r) (hist asset)"

lemma time_field_row_json [simp]: "time_field (row_json r) = Inr (row_time r)"
  by (simp add: row_json_def row_fields_def time_field_JObj)

lemma time_field_decorated_row [simp]: "time_field (decorated_row r) = Inr (row_time r)"
  by (simp add: decorated_row_def time_field_JObj row_fields_def)

lemma decorate_row_json:
  "fromtimestamp_ok (row_time r) \<Longrightarrow> decorate_result (row_json r) = Inr (decorated_row r)"
  by (simp add: decorate_result_def decorated_row_def row_json_def row_fields_def time_field_JObj)

lemma decorate_results_rows:
  "\<forall>r \<in> set rs. fromtimestamp_ok (row_time r) \<Longrightarrow>
     decorate_results (map row_json rs) = Inr (map decorated_row rs)"
  by (induction rs) (simp_all add: decorate_row_json)

lemma serve_page_request:
  "serve_page limit hist (funding_history_request asset (c + 1)) =
     take limit (rows_after hist asset c)"
proof -
  have eq: "filter (\<lambda>r. c + 1 \<le> row_time r) xs = filter (\<lambda>r. c < row_time r) xs" for xs
    by (rule filter_cong) auto
  show ?thesis
    unfolding serve_page_def rows_after_def by (simp only: funding_history_request_fields eq)
qed

text \<open>
  Against this server, one call of the client returns the next page of the backlog,
  decorated, and the time of its last record.
\<close>

lemma get_data_funding_server:
  assumes "history_wf hist asset"
  shows "get_data (funding_server limit hist) asset (c + 1) =
           Inr \<lparr>data = map decorated_row (take limit (rows_after hist asset c)),
                last_time = (if take limit (rows_after hist asset c) = [] then c + 1
                             else row_time (last (take limit (rows_after hist asset c))))\<rparr>"
proof -
  let ?p = "take limit (rows_after hist asset c)"
  have ok: "\<forall>r \<in> set ?p. fromtimestamp_ok (row_time r)"
    using assms by (auto simp: history_wf_def rows_after_def dest: in_set_takeD)
  show ?thesis
  proof (cases "?p = []")
    case True
    then show ?thesis
      by (simp add: get_data_def funding_server_def serve_page_request http_error_status_def)
  next
    case False
    have "last (map decorated_row ?p) = decorated_row (last ?p)"
      using False by (simp add: last_map)
    with False ok show ?thesis
      by (simp add: get_data_def funding_server_def serve_page_request
                    decorate_results_rows http_error_status_def)
  qed
qed

subsection \<open>Pages of a well-formed history\<close>

lemma rows_after_sorted:
  "history_wf hist asset \<Longrightarrow> sorted_wrt (\<lambda>x y. row_time x < row_time y) (rows_after hist asset c)"
  by (simp add: history_wf_def rows_after_def sorted_wrt_filter)

lemma rows_after_mono:
  "c \<le> c' \<Longrightarrow> rows_after hist asset c' = filter (\<lambda>r. c' < row_time r) (rows_after hist asset c)"
  by (auto simp: rows_after_def intro: filter_cong)

lemma rows_after_page:
  assumes "history_wf hist asset" and "0 < limit" and "take limit (rows_after hist asset c) \<noteq> []"
  shows "rows_after hist asset (row_time (last (take limit (rows_after hist asset c)))) =
           drop limit (rows_after hist asset c)"
proof -
  let ?R = "rows_after hist asset c"
  have "last (take limit ?R) \<in> set ?R"
    using assms(3) by (meson in_set_takeD last_in_set)
  then have "c \<le> row_time (last (take limit ?R))"
    by (simp add: rows_after_def)
  then have "rows_after hist asset (row_time (last (take limit ?R))) =
               filter (\<lambda>r. row_time (last (take limit ?R)) < row_time r) ?R"
    by (rule rows_after_mono)
  also have "\<dots> = drop limit ?R"
    using rows_after_sorted [OF assms(1)] assms(2,3) by (rule sorted_wrt_less_filter_gt_last)
  finally show ?thesis .
qed

lemma page_fold_max:
  assumes "history_wf hist asset" and "take limit (rows_after hist asset c) \<noteq> []"
  shows "fold max (map row_time (take limit (rows_after hist asset c))) c =
           row_time (last (take limit (rows_after hist asset c)))"
proof -
  let ?p = "take limit (rows_after hist asset c)"
  have "sorted_wrt (\<lambda>x y. row_time x < row_time y) ?p"
    using rows_after_sorted [OF assms(1)] by (rule sorted_wrt_take)
  then have "sorted_wrt (\<lambda>x y. row_time x \<le> row_time y) ?p"
    by (rule sorted_wrt_mono_rel [rotated]) simp
  then have "sorted (map row_time ?p)"
    by (simp add: sorted_map)
  moreover have "last ?p \<in> set (rows_after hist asset c)"
    using assms(2) by (meson in_set_takeD last_in_set)
  then have "c \<le> row_time (last ?p)"
    by (simp add: rows_after_def)
  ultimately show ?thesis
    using assms(2) by (simp add: fold_max_sorted_last last_map)
qed

lemma filter_after_prefix:
  assumes "sorted_wrt (\<lambda>x y. row_time x < row_time y) rows"
    and "\<forall>r \<in> set rows. c0 < row_time r"
    and "c1 \<le> fold max (map row_time (take k rows)) c0"
  shows "filter (\<lambda>r. c1 < row_time r) rows = filter (\<lambda>r. c1 < row_time r) (take k rows) @ drop k rows"
proof -
  have "c1 < row_time y" if y: "y \<in> set (drop k rows)" for y
  proof -
    have "x < row_time y" if "x \<in> insert c0 (set (map row_time (take k rows)))" for x
    proof -
      have "sorted_wrt (\<lambda>x y. row_time x < row_time y) (take k rows @ drop k rows)"
        by (simp only: append_take_drop_id assms(1))
      then have "\<forall>a \<in> set (take k rows). \<forall>b \<in> set (drop k rows). row_time a < row_time b"
        unfolding sorted_wrt_append by (elim conjE)
      with that y assms(2) show ?thesis
        by (auto dest: in_set_dropD)
    qed
    then have "fold max (map row_time (take k rows)) c0 < row_time y"
      by (simp add: fold_max_Max)
    with assms(3) show ?thesis by simp
  qed
  then have "filter (\<lambda>r. c1 < row_time r) (drop k rows) = drop k rows"
    by (simp add: filter_id_conv)
  then show ?thesis
    by (metis append_take_drop_id filter_append)
qed

end
