(* ===== verification/Loop_Termination.thy ===== *)
theory Loop_Termination
  imports Resource
begin

text \<open>
  When the generator's \<open>while True\<close> loop (src/hyperliquid/__init__.py, lines 53--63)
  returns. It returns as soon as a request fails or answers an empty page, so it ends
  whenever the network stops serving non-empty pages from some request on; the number
  of requests is then bounded by that request's index. It need not end otherwise:
  the loop never compares the new cursor with the old one (\<open>response.last_time\<close> is
  computed and never read), so a server that answers a non-empty page whose records
  are all at or before the cursor makes it send the same request and yield the same
  page forever. The model says so: the loop's value is \<open>None\<close> there.
\<close>

text \<open>A server that ignores \<open>startTime\<close> and always answers one record at time \<open>T\<close>.\<close>

definition stale_net :: "timestamp \<Rightarrow> network" where
  "stale_net T _ _ = Http_Response 200 (Json_Body (JArr [JObj [(''time'', JInt T)]]))"

definition stale_record :: "timestamp \<Rightarrow> jval" where
  "stale_record T = JObj [(''time'', JInt T), (''timestamp'', JDatetime T), (''paired_coin'', JStr ''USD'')]"

text \<open>A network that serves one page and then only empty pages.\<close>

definition one_page_net :: network where
  "one_page_net m _ =
     (if m = 0 then Http_Response 200 (Json_Body (JArr [JObj [(''time'', JInt 1683849600100)]]))
      else Http_Response 200 (Json_Body (JArr [])))"

lemma resource_while_returns_from:
  assumes "\<forall>m \<ge> N. \<forall>c resp. get_data (net m) asset c = Inr resp \<longrightarrow> data resp = []"
  shows "\<exists>r. resource_while net asset n st = Some r \<and> requests r \<le> max (Suc n) (Suc N)"
proof (induction "N - n" arbitrary: n st rule: less_induct)
  case less
  show ?case
  proof (cases "get_data (net n) asset (last_value st + 1)")
    case (Inl e)
    then show ?thesis by (simp add: resource_while.simps [of net asset n])
  next
    case (Inr resp)
    show ?thesis
    proof (cases "data resp = []")
      case True
      with Inr show ?thesis by (simp add: resource_while.simps [of net asset n])
    next
      case False
      with Inr assms have n: "n < N" by (meson not_le)
      show ?thesis
      proof (cases "incr_rows st (data resp)")
        case (Inl e)
        with Inr False show ?thesis by (simp add: resource_while.simps [of net asset n])
      next
        case (Inr p)
        obtain kept st' where p: "p = (kept, st')" by (cases p)
        from less [of "Suc n" st'] n have "\<exists>r'. resource_while net asset (Suc n) st' = Some r' \<and> requests r' \<le> Suc N"
          by simp
        then obtain r' where
          r': "resource_while net asset (Suc n) st' = Some r'" and le: "requests r' \<le> Suc N"
          by blast
        with \<open>get_data (net n) asset (last_value st + 1) = Inr resp\<close> False Inr p show ?thesis
          by (simp add: resource_while.simps [of net asset n])
      qed
    qed
  qed
qed

lemma get_data_stale:
  "fromtimestamp_ok T \<Longrightarrow>
     get_data (stale_net T n) asset c = Inr \<lparr>data = [stale_record T], last_time = T\<rparr>"
  by (simp add: get_data_def stale_net_def stale_record_def http_error_status_def
                decorate_result_def time_field_def dict_set_def)

lemma incr_rows_at_or_before:
  "\<forall>x \<in> set rs. \<exists>t. time_field x = Inr t \<and> t \<le> last_value st \<Longrightarrow>
     \<exists>kept. incr_rows st rs = Inr (kept, st)"
proof (induction rs)
  case (Cons r rs)
  then obtain t where t: "time_field r = Inr t" "t \<le> last_value st" by auto
  from Cons obtain kept where "incr_rows st rs = Inr (kept, st)" by auto
  with t show ?case by (auto simp: row_cursor_Inr [symmetric] max_def)
qed simp

text \<open>
  A network that, at the cursor of \<open>st\<close>, answers every request with a non-empty page
  whose records are all at or before that cursor.
\<close>

lemma resource_while_stalls:
  assumes "resource_while net asset n st' = Some r"
    and "\<forall>m. \<exists>resp. get_data (net m) asset (last_value st + 1) = Inr resp \<and> data resp \<noteq> [] \<and>
            (\<forall>x \<in> set (data resp). \<exists>t. time_field x = Inr t \<and> t \<le> last_value st)"
  shows "st' \<noteq> st"
  using assms(1)
proof (induction rule: resource_while_induct)
  case (fetch_failed n st' e)
  with assms(2) show ?case by (metis Inl_Inr_False)
next
  case (exhausted n st' resp)
  show ?case
  proof
    assume "st' = st"
    with exhausted(1) assms(2) obtain resp' where
      "get_data (net n) asset (last_value st' + 1) = Inr resp'" and "data resp' \<noteq> []"
      by blast
    with exhausted(1,2) show False by simp
  qed
next
  case (cursor_failed n st' resp e)
  show ?case
  proof
    assume "st' = st"
    with cursor_failed(1) assms(2) have "\<exists>kept. incr_rows st (data resp) = Inr (kept, st)"
      by (metis incr_rows_at_or_before sum.inject(2))
    with cursor_failed(3) \<open>st' = st\<close> show False by auto
  qed
next
  case (emitted n st' resp kept st'' r)
  show ?case
  proof
    assume "st' = st"
    with emitted(1) assms(2) have "\<exists>kept. incr_rows st (data resp) = Inr (kept, st)"
      by (metis incr_rows_at_or_before sum.inject(2))
    with emitted(3,4) \<open>st' = st\<close> show False by auto
  qed
qed

subsection \<open>Termination\<close>

text \<open>
  C14. The generator returns on every network that stops serving non-empty pages from
  some request \<open>N\<close> on (the server has no more data, the service is down, or every later
  answer is an error), after at most \<open>N + 1\<close> requests.
\<close>

theorem resource_returns_when_pages_stop:
  assumes "\<forall>m \<ge> N. \<forall>c resp. get_data (net m) asset c = Inr resp \<longrightarrow> data resp = []"
  shows "\<exists>r. hyperliquid_resource net asset st = Some r \<and> requests r \<le> Suc N"
  using resource_while_returns_from [OF assms, of 0 st] by (simp add: hyperliquid_resource_while)

theorem resource_returns_when_pages_stop_witness:
  "\<exists>r. hyperliquid_resource one_page_net ''BTC'' (incremental_start None) = Some r \<and> requests r \<le> 2"
proof -
  have "\<forall>m \<ge> 1. \<forall>c resp. get_data (one_page_net m) ''BTC'' c = Inr resp \<longrightarrow> data resp = []"
    by (auto simp: get_data_def one_page_net_def http_error_status_def)
  from resource_returns_when_pages_stop [OF this, of "incremental_start None"] show ?thesis
    by (simp add: numeral_2_eq_2)
qed

text \<open>
  C15. The generator does not return when, at the cursor it starts from, the network
  answers every request with a non-empty page whose records all have times at or
  before that cursor (a server that ignores \<open>startTime\<close>, or replays an old page):
  such a page leaves the cursor where it is, so the loop sends the same request again
  and yields the page's kept records again, forever. Nothing in the loop guards against
  a page that makes no progress.
\<close>

theorem stale_page_diverges:
  assumes "\<forall>m. \<exists>resp. get_data (net m) asset (last_value st + 1) = Inr resp \<and> data resp \<noteq> [] \<and>
             (\<forall>x \<in> set (data resp). \<exists>t. time_field x = Inr t \<and> t \<le> last_value st)"
  shows "hyperliquid_resource net asset st = None"
proof (cases "hyperliquid_resource net asset st")
  case (Some r)
  then have "resource_while net asset 0 st = Some r"
    by (simp add: hyperliquid_resource_while)
  from resource_while_stalls [OF this assms] show ?thesis by simp
qed

theorem stale_page_diverges_witness:
  "hyperliquid_resource (stale_net 1683849600100) ''BTC''
     \<lparr>start_value = START_TIME, last_value = 1683849600100\<rparr> = None"
proof (rule stale_page_diverges, intro allI exI conjI)
  fix m :: nat
  let ?st = "\<lparr>start_value = START_TIME, last_value = 1683849600100\<rparr>"
  have ok: "fromtimestamp_ok 1683849600100" by (simp add: fromtimestamp_ok_def)
  show "get_data (stale_net 1683849600100 m) ''BTC'' (last_value ?st + 1) =
          Inr \<lparr>data = [stale_record 1683849600100], last_time = 1683849600100\<rparr>"
    by (rule get_data_stale [OF ok])
  show "data \<lparr>data = [stale_record 1683849600100], last_time = 1683849600100\<rparr> \<noteq> []" by simp
  show "\<forall>x \<in> set (data \<lparr>data = [stale_record (1683849600100::timestamp)], last_time = 1683849600100\<rparr>).
          \<exists>t. time_field x = Inr t \<and> t \<le> last_value ?st"
    by (simp add: stale_record_def time_field_def)
qed

end
