(* ===== verification/Logging.thy ===== *)
theory Logging
  imports Resource
begin

text \<open>
  The logging of src/hyperliquid/__init__.py: \<open>logging.basicConfig\<close> (lines 13--17)
  and the five records the generator writes (lines 47, 50, 54, 58, 62). A record is
  kept as the values its format string interpolates; the four \<open>INFO\<close> lines are also
  rendered as the text Python prints (\<open>info_message\<close>, with \<open>py_str_int\<close> for \<open>str\<close> of an
  int). The \<open>ERROR\<close> record of line 62 carries the exception; its text \<open>str(e)\<close> is not
  rendered, since for an HTTP error it holds the response's reason phrase, which the
  transport does not model. \<open>resource_while_log\<close> and \<open>hyperliquid_resource_log\<close> are the
  generator of theory Resource with its log written out: the same branches, each
  returning the records it writes in order.
\<close>

datatype log_level = INFO | ERROR

fun level_no :: "log_level \<Rightarrow> nat" where
  "level_no INFO = 20"
| "level_no ERROR = 40"

record log_config =
  log_threshold :: nat
  log_format :: string
  log_datefmt :: string

definition basic_config :: log_config where
  "basic_config = \<lparr>log_threshold = level_no INFO,
                   log_format = ''%(asctime)s - %(levelname)s - %(message)s'',
                   log_datefmt = ''%Y-%m-%d %H:%M:%S''\<rparr>"

definition log_enabled :: "log_config \<Rightarrow> log_level \<Rightarrow> bool" where
  "log_enabled cfg lvl \<longleftrightarrow> log_threshold cfg \<le> level_no lvl"

datatype info_event =
    Asset_Cursor symbol timestamp
  | No_Data symbol timestamp
  | Getting_Data symbol timestamp
  | No_More_Data symbol timestamp

datatype log_event = Info info_event | Error_Log symbol py_error

fun event_level :: "log_event \<Rightarrow> log_level" where
  "event_level (Info _) = INFO"
| "event_level (Error_Log _ _) = ERROR"

definition emitted :: "log_config \<Rightarrow> log_event list \<Rightarrow> log_event list" where
  "emitted cfg evs = filter (\<lambda>e. log_enabled cfg (event_level e)) evs"

text \<open>\<open>str\<close> of an int: its decimal digits, with a minus sign when negative.\<close>

definition digit_char :: "nat \<Rightarrow> char" where
  "digit_char d = char_of (48 + d)"

fun py_str_nat :: "nat \<Rightarrow> string" where
  "py_str_nat n = (if n < 10 then [digit_char n] else py_str_nat (n div 10) @ [digit_char (n mod 10)])"

declare py_str_nat.simps [simp del]

definition py_str_int :: "int \<Rightarrow> string" where
  "py_str_int i = (if i < 0 then CHR ''-'' # py_str_nat (nat (- i)) else py_str_nat (nat i))"

fun info_message :: "info_event \<Rightarrow> string" where
  "info_message (Asset_Cursor a c) = ''Asset: '' @ a @ '', Cursor: '' @ py_str_int c"
| "info_message (No_Data a c) = ''No data available for asset '' @ a @ '', cursor: '' @ py_str_int c"
| "info_message (Getting_Data a c) = ''Getting data for asset: '' @ a @ '', cursor: '' @ py_str_int c"
| "info_message (No_More_Data a c) = ''No more data available for asset '' @ a @ '', cursor: '' @ py_str_int c"

text \<open>
  The cursor a request was made from, as the record written just before it shows:
  line 47 before the first request, line 54 before each request of the loop; the
  request asks for \<open>startTime\<close> one past it.
\<close>

fun request_cursor :: "log_event \<Rightarrow> timestamp option" where
  "request_cursor (Info (Asset_Cursor _ c)) = Some c"
| "request_cursor (Info (Getting_Data _ c)) = Some c"
| "request_cursor _ = None"

text \<open>A server that honours \<open>startTime\<close>: one record at a time it has, then nothing.\<close>

definition honest_net :: network where
  "honest_net m req =
     (if m = 0 \<and> req_startTime req \<le> 1683849600100
      then Http_Response 200 (Json_Body (JArr [JObj [(''time'', JInt 1683849600100)]]))
      else Http_Response 200 (Json_Body (JArr [])))"

text \<open>The \<open>ERROR\<close> records a run of the loop writes, given how it ended.\<close>

definition loop_errors :: "symbol \<Rightarrow> stream_end \<Rightarrow> log_event list" where
  "loop_errors asset out =
     (case out of Exhausted \<Rightarrow> []
      | Failed e \<Rightarrow> if is_request_exception e then [Error_Log asset e] else [])"

text \<open>A network that serves one page, then times out.\<close>

definition flaky_net :: network where
  "flaky_net m _ =
     (if m = 0 then Http_Response 200 (Json_Body (JArr [JObj [(''time'', JInt 1683849600100)]]))
      else Timed_Out)"

text \<open>The loop of lines 53--63 with the records it writes.\<close>

partial_function (option) resource_while_log ::
  "network \<Rightarrow> symbol \<Rightarrow> nat \<Rightarrow> incremental \<Rightarrow> (stream_result \<times> log_event list) option"
where
  "resource_while_log net asset n st =
     (case get_data (net n) asset (last_value st + 1) of
        Inl e \<Rightarrow> Some (stop (Failed e) st (Suc n),
                       Info (Getting_Data asset (last_value st)) #
                       (if is_request_exception e then [Error_Log asset e] else []))
      | Inr resp \<Rightarrow>
          if data resp = [] then
            Some (stop Exhausted st (Suc n),
                  [Info (Getting_Data asset (last_value st)), Info (No_More_Data asset (last_value st))])
          else (case incr_rows st (data resp) of
                  Inl e \<Rightarrow> Some (stop (Failed e) st (Suc n), [Info (Getting_Data asset (last_value st))])
                | Inr (kept, st') \<Rightarrow>
                    Option.bind (resource_while_log net asset (Suc n) st')
                      (\<lambda>(r, l). Some (emit kept r, Info (Getting_Data asset (last_value st)) # l))))"

text \<open>The whole generator: line 47, the first request outside any \<open>try\<close>, then the loop.\<close>

definition hyperliquid_resource_log ::
  "network \<Rightarrow> symbol \<Rightarrow> incremental \<Rightarrow> (stream_result \<times> log_event list) option" where
  "hyperliquid_resource_log net asset st =
     (case get_data (net 0) asset (last_value st + 1) of
        Inl e \<Rightarrow> Some (stop (Failed e) st 1, [Info (Asset_Cursor asset (last_value st))])
      | Inr resp \<Rightarrow>
          if data resp = [] then
            Some (stop Exhausted st 1,
                  [Info (Asset_Cursor asset (last_value st)), Info (No_Data asset (last_value st))])
          else (case incr_rows st (data resp) of
                  Inl e \<Rightarrow> Some (stop (Failed e) st 1, [Info (Asset_Cursor asset (last_value st))])
                | Inr (kept, st') \<Rightarrow>
                    Option.bind (resource_while_log net asset 1 st')
                      (\<lambda>(r, l). Some (emit kept r, Info (Asset_Cursor asset (last_value st)) # l))))"

subsection \<open>The logged generator is the generator\<close>

lemma resource_while_log_plain:
  assumes "resource_while_log net asset n st = Some y"
  shows "resource_while net asset n st = Some (fst y)"
  apply (rule resource_while_log.raw_induct [OF _ assms])
  subgoal premises prems for f net asset n st y
  proof (cases "get_data (net n) asset (last_value st + 1)")
    case (Inl e)
    with prems(2) show ?thesis by (auto simp: resource_while.simps [of net asset n])
  next
    case (Inr resp)
    show ?thesis
    proof (cases "data resp = []")
      case True
      with Inr prems(2) show ?thesis by (auto simp: resource_while.simps [of net asset n])
    next
      case False
      show ?thesis
      proof (cases "incr_rows st (data resp)")
        case (Inl e)
        with Inr False prems(2) show ?thesis by (auto simp: resource_while.simps [of net asset n])
      next
        case (Inr p)
        obtain kept st' where p: "p = (kept, st')" by (cases p)
        from prems(2) \<open>get_data (net n) asset (last_value st + 1) = Inr resp\<close> False Inr p
        obtain r' l' where y': "f net asset (Suc n) st' = Some (r', l')"
          and y: "y = (emit kept r', Info (Getting_Data asset (last_value st)) # l')"
          by (auto split: Option.bind_splits)
        from prems(1) [OF y'] have "resource_while net asset (Suc n) st' = Some r'" by simp
        with \<open>get_data (net n) asset (last_value st + 1) = Inr resp\<close> False Inr p y show ?thesis
          by (simp add: resource_while.simps [of net asset n])
      qed
    qed
  qed
  done

lemma row_cursor_Inl_not_request: "row_cursor r = Inl e \<Longrightarrow> \<not> is_request_exception e"
proof (cases r)
  case (JObj kvs)
  moreover have "py_num v = Inl e \<Longrightarrow> \<not> is_request_exception e" for v
    by (cases v) auto
  ultimately show "row_cursor r = Inl e \<Longrightarrow> \<not> is_request_exception e"
    by (auto simp: row_cursor_def split: option.splits)
qed (auto simp: row_cursor_def)

lemma incr_rows_Inl_not_request: "incr_rows st rs = Inl e \<Longrightarrow> \<not> is_request_exception e"
  by (induction st rs rule: incr_rows.induct)
     (auto simp: bind_result_eq_Inl row_cursor_Inl_not_request split: if_splits)

lemma resource_while_log_Some:
  "resource_while net asset n st = Some r \<Longrightarrow>
     \<exists>l. resource_while_log net asset n st = Some (r, l) \<and>
         filter (\<lambda>e. event_level e = ERROR) l = loop_errors asset (outcome r) \<and>
         l \<noteq> [] \<and> (\<forall>e \<in> set (butlast l). event_level e = INFO)"
proof (induction rule: resource_while_induct)
  case (fetch_failed n st e)
  then show ?case
    by (simp add: resource_while_log.simps [of net asset n] loop_errors_def)
next
  case (exhausted n st resp)
  then show ?case
    by (simp add: resource_while_log.simps [of net asset n] loop_errors_def)
next
  case (cursor_failed n st resp e)
  then show ?case
    by (simp add: resource_while_log.simps [of net asset n] loop_errors_def
                  incr_rows_Inl_not_request)
next
  case (emitted n st resp kept st' r)
  then obtain l where l: "resource_while_log net asset (Suc n) st' = Some (r, l)"
    and err: "filter (\<lambda>e. event_level e = ERROR) l = loop_errors asset (outcome r)"
    and info: "l \<noteq> []" "\<forall>e \<in> set (butlast l). event_level e = INFO"
    by blast
  with emitted(1-3) show ?case
    by (simp add: resource_while_log.simps [of net asset n])
qed

lemma emitted_basic_config [simp]: "emitted basic_config l = l"
proof -
  have "log_enabled basic_config (event_level e)" for e
    by (cases e) (simp_all add: log_enabled_def basic_config_def)
  then show ?thesis by (simp add: emitted_def)
qed

lemma resource_while_log_unique:
  "resource_while_log net asset n st = Some (r, l) \<Longrightarrow>
     \<exists>l'. l' = l \<and> filter (\<lambda>e. event_level e = ERROR) l' = loop_errors asset (outcome r) \<and>
          l' \<noteq> [] \<and> (\<forall>e \<in> set (butlast l'). event_level e = INFO)"
  using resource_while_log_Some [OF resource_while_log_plain] by fastforce

lemma hyperliquid_resource_log_cases:
  assumes "hyperliquid_resource_log net asset st = Some (r, l)"
  shows "(requests r = 1 \<and> filter (\<lambda>e. event_level e = ERROR) l = [] \<or>
          1 < requests r \<and> filter (\<lambda>e. event_level e = ERROR) l = loop_errors asset (outcome r)) \<and>
         (\<forall>e \<in> set (butlast l). event_level e = INFO)"
proof (cases "get_data (net 0) asset (last_value st + 1)")
  case (Inl e)
  with assms show ?thesis by (auto simp: hyperliquid_resource_log_def)
next
  case (Inr resp)
  show ?thesis
  proof (cases "data resp = []")
    case True
    with Inr assms show ?thesis by (auto simp: hyperliquid_resource_log_def)
  next
    case False
    show ?thesis
    proof (cases "incr_rows st (data resp)")
      case (Inl e)
      with Inr False assms show ?thesis by (auto simp: hyperliquid_resource_log_def)
    next
      case (Inr p)
      obtain kept st' where p: "p = (kept, st')" by (cases p)
      from assms \<open>get_data (net 0) asset (last_value st + 1) = Inr resp\<close> False Inr p
      obtain r' l' where run: "resource_while_log net asset 1 st' = Some (r', l')"
        and r: "r = emit kept r'" and l: "l = Info (Asset_Cursor asset (last_value st)) # l'"
        by (auto simp: hyperliquid_resource_log_def split: Option.bind_splits)
      have req: "requests r' = 1 + length (batches r') + 1"
        using resource_while_requests [OF resource_while_log_plain [OF run]] by simp
      with resource_while_log_unique [OF run] r l show ?thesis
        by auto
    qed
  qed
qed

lemma flaky_run:
  "hyperliquid_resource_log flaky_net ''BTC'' (incremental_start None) =
     Some (emit [JObj [(''time'', JInt 1683849600100), (''timestamp'', JDatetime 1683849600100),
                       (''paired_coin'', JStr ''USD'')]]
             (stop (Failed (Request_Timeout ''BTC'')) \<lparr>start_value = START_TIME, last_value = 1683849600100\<rparr> 2),
           [Info (Asset_Cursor ''BTC'' START_TIME), Info (Getting_Data ''BTC'' 1683849600100),
            Error_Log ''BTC'' (Request_Timeout ''BTC'')])"
proof -
  let ?st' = "\<lparr>start_value = START_TIME, last_value = 1683849600100\<rparr>"
  have loop: "resource_while_log flaky_net ''BTC'' 1 ?st' =
                Some (stop (Failed (Request_Timeout ''BTC'')) ?st' 2,
                      [Info (Getting_Data ''BTC'' 1683849600100), Error_Log ''BTC'' (Request_Timeout ''BTC'')])"
    by (subst resource_while_log.simps) (simp add: flaky_net_def get_data_def)
  then show ?thesis
    by (simp add: hyperliquid_resource_log_def flaky_net_def get_data_def http_error_status_def
                  decorate_result_def time_field_def dict_set_def fromtimestamp_ok_def
                  incremental_start_def START_TIME_def row_cursor_def)
qed

subsection \<open>Properties of the log\<close>

text \<open>
  C16. The \<open>ERROR\<close> records a run writes, all of them being emitted under the
  configuration of lines 13--17: none when the first request ends the run, since that
  request (line 48) is outside the \<open>try\<close>; otherwise one exactly when the run failed with
  a \<open>RequestException\<close>. A record without \<open>"time"\<close> or a bad value fails the run without
  any \<open>ERROR\<close> record. Every record but the last is an \<open>INFO\<close> record, so an \<open>ERROR\<close>
  record, when there is one, is the last record of the run.
\<close>

theorem error_log_written:
  assumes "hyperliquid_resource_log net asset st = Some (r, l)"
  shows "filter (\<lambda>e. event_level e = ERROR) (emitted basic_config l) =
           (if requests r = 1 then [] else loop_errors asset (outcome r)) \<and>
         (\<forall>e \<in> set (butlast (emitted basic_config l)). event_level e = INFO)"
  using hyperliquid_resource_log_cases [OF assms] by auto

theorem error_log_written_witness:
  "filter (\<lambda>e. event_level e = ERROR)
     (emitted basic_config (snd (the (hyperliquid_resource_log flaky_net ''BTC'' (incremental_start None))))) =
   [Error_Log ''BTC'' (Request_Timeout ''BTC'')] \<and>
   last (emitted basic_config (snd (the (hyperliquid_resource_log flaky_net ''BTC'' (incremental_start None))))) =
   Error_Log ''BTC'' (Request_Timeout ''BTC'')"
  using error_log_written [OF flaky_run] flaky_run by (simp add: loop_errors_def)

subsection \<open>The numbers in the log lines\<close>

lemma info_message_example:
  "info_message (Asset_Cursor ''BTC'' START_TIME) = ''Asset: BTC, Cursor: 1683849600047''"
  by (simp add: py_str_int_def py_str_nat.simps digit_char_def char_of_def bit_0 START_TIME_def)

subsection \<open>No request is sent twice\<close>

lemma resource_while_requests_increase:
  assumes honest: "\<forall>m c resp. get_data (net m) asset c = Inr resp \<longrightarrow>
                     (\<forall>x \<in> set (data resp). \<forall>t. time_field x = Inr t \<longrightarrow> c \<le> t)"
  shows "resource_while net asset n st = Some r \<Longrightarrow> cursor_wf st \<longrightarrow>
           (\<exists>l. resource_while_log net asset n st = Some (r, l) \<and>
                sorted_wrt (<) (List.map_filter request_cursor l) \<and>
                (\<forall>c \<in> set (List.map_filter request_cursor l). last_value st \<le> c))"
proof (induction rule: resource_while_induct)
  case (fetch_failed n st e)
  then show ?case by (simp add: resource_while_log.simps [of net asset n])
next
  case (exhausted n st resp)
  then show ?case by (simp add: resource_while_log.simps [of net asset n])
next
  case (cursor_failed n st resp e)
  then show ?case by (simp add: resource_while_log.simps [of net asset n])
next
  case (emitted n st resp kept st' r)
  show ?case
  proof
    assume wf: "cursor_wf st"
    have "\<forall>x \<in> set (data resp). \<forall>t. time_field x = Inr t \<longrightarrow> last_value st < t"
      using honest emitted(1) by fastforce
    with emitted(2,3) wf have lt: "last_value st < last_value st'"
      by (blast intro: incr_rows_advances)
    from emitted.IH incr_rows_cursor_wf [OF emitted(3) wf] obtain l where
      l: "resource_while_log net asset (Suc n) st' = Some (r, l)"
      and srt: "sorted_wrt (<) (List.map_filter request_cursor l)"
      and ge: "\<forall>c \<in> set (List.map_filter request_cursor l). last_value st' \<le> c"
      by blast
    have "\<forall>c \<in> set (List.map_filter request_cursor l). last_value st < c"
      using ge lt by fastforce
    with emitted(1-3) l srt show "\<exists>l. resource_while_log net asset n (st) = Some (emit kept r, l) \<and>
           sorted_wrt (<) (List.map_filter request_cursor l) \<and>
           (\<forall>c \<in> set (List.map_filter request_cursor l). last_value st \<le> c)"
      by (simp add: resource_while_log.simps [of net asset n] less_imp_le)
  qed
qed

text \<open>
  C17. Against a server that honours \<open>startTime\<close> (every record it serves is at or
  after the requested start), a run never sends the same request twice: the cursors
  its requests are made from, as the log shows them before each request, strictly
  increase, and so do the requests' \<open>startTime\<close>s. Compare C15, where the server does
  not honour \<open>startTime\<close> and the same request repeats forever.
\<close>

theorem requests_never_repeat:
  assumes honest: "\<forall>m c resp. get_data (net m) asset c = Inr resp \<longrightarrow>
                     (\<forall>x \<in> set (data resp). \<forall>t. time_field x = Inr t \<longrightarrow> c \<le> t)"
    and wf: "cursor_wf st" and run: "hyperliquid_resource_log net asset st = Some (r, l)"
  shows "sorted_wrt (<) (List.map_filter request_cursor l)"
proof (cases "get_data (net 0) asset (last_value st + 1)")
  case (Inl e)
  with run show ?thesis by (auto simp: hyperliquid_resource_log_def)
next
  case (Inr resp)
  show ?thesis
  proof (cases "data resp = []")
    case True
    with Inr run show ?thesis by (auto simp: hyperliquid_resource_log_def)
  next
    case False
    show ?thesis
    proof (cases "incr_rows st (data resp)")
      case (Inl e)
      with Inr False run show ?thesis by (auto simp: hyperliquid_resource_log_def)
    next
      case (Inr p)
      obtain kept st' where p: "p = (kept, st')" by (cases p)
      from run \<open>get_data (net 0) asset (last_value st + 1) = Inr resp\<close> False Inr p
      obtain r' l' where loop: "resource_while_log net asset 1 st' = Some (r', l')"
        and l: "l = Info (Asset_Cursor asset (last_value st)) # l'"
        by (auto simp: hyperliquid_resource_log_def split: Option.bind_splits)
      have "\<forall>x \<in> set (data resp). \<forall>t. time_field x = Inr t \<longrightarrow> last_value st < t"
        using honest \<open>get_data (net 0) asset (last_value st + 1) = Inr resp\<close> by fastforce
      with False Inr p wf have lt: "last_value st < last_value st'"
        by (blast intro: incr_rows_advances)
      have wf': "cursor_wf st'"
        using incr_rows_cursor_wf Inr p wf by blast
      from resource_while_requests_increase [OF honest resource_while_log_plain [OF loop]] wf' loop
      have "sorted_wrt (<) (List.map_filter request_cursor l') \<and>
            (\<forall>c \<in> set (List.map_filter request_cursor l'). last_value st' \<le> c)"
        by auto
      with lt l show ?thesis by fastforce
    qed
  qed
qed

theorem requests_never_repeat_witness:
  "sorted_wrt (<) (List.map_filter request_cursor
     (snd (the (hyperliquid_resource_log honest_net ''BTC'' (incremental_start None)))))"
proof -
  let ?st' = "\<lparr>start_value = START_TIME, last_value = 1683849600100\<rparr>"
  have loop: "resource_while_log honest_net ''BTC'' 1 ?st' =
                Some (stop Exhausted ?st' 2,
                      [Info (Getting_Data ''BTC'' 1683849600100), Info (No_More_Data ''BTC'' 1683849600100)])"
    by (subst resource_while_log.simps) (simp add: honest_net_def get_data_def http_error_status_def)
  then have run: "hyperliquid_resource_log honest_net ''BTC'' (incremental_start None) =
     Some (emit [JObj [(''time'', JInt 1683849600100), (''timestamp'', JDatetime 1683849600100),
                       (''paired_coin'', JStr ''USD'')]] (stop Exhausted ?st' 2),
           [Info (Asset_Cursor ''BTC'' START_TIME), Info (Getting_Data ''BTC'' 1683849600100),
            Info (No_More_Data ''BTC'' 1683849600100)])"
    by (simp add: hyperliquid_resource_log_def honest_net_def get_data_def http_error_status_def
                  decorate_result_def time_field_def dict_set_def fromtimestamp_ok_def
                  incremental_start_def START_TIME_def row_cursor_def)
  have honest: "\<forall>m c resp. get_data (honest_net m) ''BTC'' c = Inr resp \<longrightarrow>
                  (\<forall>x \<in> set (data resp). \<forall>t. time_field x = Inr t \<longrightarrow> c \<le> t)"
    by (auto simp: honest_net_def get_data_def http_error_status_def decorate_result_def
                   time_field_def dict_set_def fromtimestamp_ok_def split: if_splits)
  from requests_never_repeat [OF honest cursor_wf_start run] run show ?thesis by simp
qed

end
