(* ===== verification/Spec2Isabelle.thy ===== *)
theory Spec2Isabelle
  imports Pipeline Server Loop_Termination Logging
begin

text \<open>
  \<^bold>\<open>Verification of the Hyperliquid funding-rate extractor.\<close>
  The repository (swang2016/dlt-hyperliquid) is a dlt pipeline of two files.
  src/hyperliquid/__init__.py holds the API client \<open>get_data\<close>, the per-asset
  generator \<open>hyperliquid_resource\<close> nested in the source \<open>hyperliquid_source\<close>, and the
  constants \<open>ASSETS\<close> and \<open>START_TIME\<close>; src/hyperliquid_pipeline.py holds the entry
  \<open>load_hyperliquid\<close>, which runs the source through one \<open>dlt.pipeline\<close>. The
  generator reads its cursor from a dlt incremental, asks \<open>get_data\<close> for the records
  after it, yields each page, and stops on an empty page; dlt advances the cursor over
  every yielded page, merges pages into a table per asset on the key \<open>time\<close>, and
  commits data and cursors at the end of a run.

  \<^bold>\<open>Theories.\<close>
  \<^item> Prelude: the result type of fallible code (\<open>'e + 'a\<close>, \<open>bind_result\<close>), running
    maxima (\<open>fold max\<close>) and their reading as \<open>Max\<close>, pages of strictly ascending
    lists, and \<open>chunks\<close>, the pages a list is cut into.
  \<^item> Python_Values: the decoded JSON values and Python's truth test, item lookup and
    numeric reading on them; the exceptions (\<open>py_error\<close>) and which are
    \<open>RequestException\<close>s.
  \<^item> ApiClient: \<open>get_data\<close> (lines 76--125) with its request (\<open>API_URL\<close>, headers,
    body and the 30-second timeout, lines 22 and 90--100), \<open>raise_for_status\<close>
    (\<open>http_error_status\<close>), decoding, the falsy-body return, the decoration loop
    (\<open>decorate_result\<close>, \<open>decorate_results\<close>), \<open>results[-1]["time"]\<close> and the three
    handlers; the network is a parameter \<open>transport\<close>. Lemmas: when \<open>get_data\<close>
    succeeds and what it returns (C4), how its exceptions are classified (C5).
  \<^item> Incremental: dlt's incremental cursor, modelled from the spec (\<open>START_TIME\<close>,
    \<open>incremental_start\<close>, \<open>incr_rows\<close>): the cursor only grows, to the running maximum
    of the delivered times, and rows before \<open>start_value\<close> are dropped.
  \<^item> Resource: the generator as \<open>hyperliquid_resource\<close> (first request peeled, as in
    the code) and \<open>resource_while\<close>, the \<open>while True\<close> loop, a
    \<open>partial_function (option)\<close> (\<open>None\<close> is a loop that never ends); the network is
    a function of the request's index (\<open>network\<close>), so failures and new data can
    appear at any call. An induction rule for returning runs (\<open>resource_while_induct\<close>)
    gives the invariants used by how a stream ends (C2) and the request count (C3).
  \<^item> Server: the remote endpoint, modelled from the spec: a per-coin history served
    in ascending pages of at most \<open>limit\<close> records from \<open>startTime\<close>.
  \<^item> Pipeline: the aggregator (\<open>ASSETS\<close>, \<open>resource_of\<close>, \<open>hyperliquid_source\<close>,
    names \<open>asset.lower() + "_usd"\<close>, with \<open>str.lower\<close> on Latin-1) and the one call
    \<open>pipeline.run\<close> of \<open>load_hyperliquid\<close>, with dlt's run modelled from the spec:
    cursors read from the state, resources extracted in order, the merge sink
    \<open>merge_rows\<close>, and an all-or-nothing commit. Lemma: distinct assets get distinct
    table names (C9).
  \<^item> Loop_Termination: when the \<open>while True\<close> loop returns. It returns on every
    network that stops serving non-empty pages from some request on, within that many
    requests (C14, by induction on the requests left, as a \<open>Some\<close> result). It does
    not return against a network that keeps answering, at the cursor, non-empty pages
    of records at or before it (C15, the value is \<open>None\<close>): nothing in the loop checks
    that a page moved the cursor.
  \<^item> Logging: \<open>logging.basicConfig\<close> (lines 13--17) and the five log records of the
    generator (lines 47--62), as a logged copy \<open>hyperliquid_resource_log\<close> of the
    generator with the same branches (\<open>resource_while_log_plain\<close> and
    \<open>resource_while_log_Some\<close>: dropping the log gives \<open>hyperliquid_resource\<close>). Lemmas:
    which \<open>ERROR\<close> records a run writes, and that one is always the last record (C16);
    against a server that honours \<open>startTime\<close> the cursors requests are made from
    strictly increase, so no request repeats (C17, the other side of C15).
  \<^item> This theory: what a run against the server delivers (\<open>backlog_result\<close>) and the
    properties spanning components: exact delivery of the backlog (C1); pages in
    strictly ascending time against any network that honours \<open>startTime\<close> (C6); the
    findings on statuses and malformed records (C7, C8); replay and rerun idempotence
    and end-to-end delivery (C10--C12); restart after a crash in the middle of a load,
    with at-least-once delivery made exact by the merge (C13).

  \<^bold>\<open>Termination and bounds.\<close> No fuel is used. The loop's termination is not a
  property of the code (a server that never returns an empty page keeps it running);
  it is proved against the server model: the measure is the number of records after
  the cursor, which every non-empty page decreases by the page's length
  (\<open>resource_while_server\<close>, by strong induction); against any network it is proved
  from the index after which no page is served (C14), and refuted for a network that
  keeps answering pages at or before the cursor (C15). Python integers are unbounded and
  are \<open>int\<close>; \<open>datetime.fromtimestamp\<close> accepts the years 1--9999 (\<open>fromtimestamp_ok\<close>).

  \<^bold>\<open>Findings.\<close> The strict-after cursor (\<open>last_value + 1\<close>) makes the pages' times
  strictly ascending, so a record that shares its time with the last record of a page
  is never delivered (C6); statuses below 400 are not errors (C7); malformed records
  raise non-\<open>RequestException\<close>s (C8); a failure in one asset aborts the whole run,
  against the spec's fault isolation (the all-or-nothing commit of
  \<open>load_hyperliquid\<close>); a page that does not move the cursor makes the generator repeat
  it forever (C15); a failure of the first request is not logged, unlike the same
  failure at any later request (C16); records without \<open>coin\<close> or \<open>fundingRate\<close>, or
  with a boolean \<open>time\<close>, are delivered (C4).

  \<^bold>\<open>Not modelled.\<close> The text of \<open>str(e)\<close> in the \<open>ERROR\<close> log line (for an
  HTTP error it holds the response's reason phrase, which the transport does not
  carry), log timestamps and the handler's stream; \<open>load_dotenv\<close> and the destination's configuration
  (duckdb, the commented-out postgres); the message strings of the exceptions (their
  data is kept); JSON numbers with fractions; the local time zone of \<open>fromtimestamp\<close>;
  dlt's boundary-row hash deduplication, schema inference and normalisation. dlt's
  extraction scheduler (its thread pool and the order in which it advances the six
  generators) is not modelled: \<open>extract_all\<close> runs the resources one after another.
  For runs in which every stream ends this commits the same data, since each stream
  depends only on its own asset's requests and the commit waits for all of them; when
  a stream fails, which error a run reports can depend on the schedule, but nothing is
  committed either way.

  \<^bold>\<open>Further work.\<close> A per-asset fault-isolating aggregation, as the spec asks,
  to set beside the code's abort-on-first-failure; JSON numbers with fractions in
  \<open>get_data\<close>'s decoding; dlt's extraction schedule as interleaved steps of the six
  generators, with the spec's cancellation rule (section 5).
\<close>

section \<open>The backlog a run delivers\<close>

text \<open>
  What a run of the generator against a well-formed server (theory Server) delivers,
  written without the loop: the records after the cursor, decorated, cut into pages of
  the server's page size; the stream ends exhausted, the cursor ends at the highest
  delivered time, and one request per page plus the final empty one is made.
\<close>

definition backlog_result :: "nat \<Rightarrow> history \<Rightarrow> symbol \<Rightarrow> nat \<Rightarrow> incremental \<Rightarrow> stream_result" where
  "backlog_result limit hist asset n st =
     (let rows = rows_after hist asset (last_value st)
      in \<lparr>batches = map (map decorated_row) (chunks limit rows),
          outcome = Exhausted,
          cursor = st\<lparr>last_value := fold max (map row_time rows) (last_value st)\<rparr>,
          requests = n + length (chunks limit rows) + 1\<rparr>)"

definition demo_history :: history where
  "demo_history _ =
     [\<lparr>row_coin = ''BTC'', funding_rate = ''0.0000125'', premium = ''0.0003'', row_time = 1683849600100\<rparr>,
      \<lparr>row_coin = ''BTC'', funding_rate = ''0.0000100'', premium = ''0.0002'', row_time = 1683849600200\<rparr>,
      \<lparr>row_coin = ''BTC'', funding_rate = ''0.0000090'', premium = ''0.0001'', row_time = 1683853200000\<rparr>]"

text \<open>
  A network honours \<open>startTime\<close> when every record of every page it answers has a time
  at or after the \<open>startTime\<close> of the request.
\<close>

definition honours_start :: "network \<Rightarrow> symbol \<Rightarrow> bool" where
  "honours_start net asset \<longleftrightarrow>
     (\<forall>m c resp. get_data (net m) asset c = Inr resp \<longrightarrow>
        (\<forall>x \<in> set (data resp). \<forall>t. time_field x = Inr t \<longrightarrow> c \<le> t))"

subsection \<open>Helper lemmas\<close>

lemma decorate_results_first_error:
  "decorate_results pre = Inr pre' \<Longrightarrow> decorate_result r = Inl e \<Longrightarrow>
     decorate_results (pre @ r # post) = Inl e"
  by (induction pre arbitrary: pre') (auto simp: result_simps)

lemma incr_rows_page:
  assumes "cursor_wf st"
  shows "incr_rows st (map decorated_row (take limit (rows_after hist asset (last_value st)))) =
           Inr (map decorated_row (take limit (rows_after hist asset (last_value st))),
                st\<lparr>last_value := fold max (map row_time (take limit (rows_after hist asset (last_value st))))
                                      (last_value st)\<rparr>)"
proof (rule incr_rows_all_kept)
  let ?p = "take limit (rows_after hist asset (last_value st))"
  show "list_all2 (\<lambda>r t. time_field r = Inr t) (map decorated_row ?p) (map row_time ?p)"
    by (simp add: list_all2_conv_all_nth)
  show "\<forall>t \<in> set (map row_time ?p). start_value st \<le> t"
    using assms by (auto simp: cursor_wf_def rows_after_def dest!: in_set_takeD)
qed

lemma resource_while_server:
  assumes "history_wf hist asset" and "0 < limit" and "cursor_wf st"
  shows "resource_while (\<lambda>_. funding_server limit hist) asset n st =
           Some (backlog_result limit hist asset n st)"
  using assms(3)
proof (induction "length (rows_after hist asset (last_value st))" arbitrary: st n rule: less_induct)
  case less
  let ?net = "\<lambda>_::nat. funding_server limit hist"
  let ?R = "rows_after hist asset (last_value st)"
  let ?p = "take limit ?R"
  have gd: "get_data (?net n) asset (last_value st + 1) =
              Inr \<lparr>data = map decorated_row ?p,
                   last_time = (if ?p = [] then last_value st + 1 else row_time (last ?p))\<rparr>"
    using assms(1) by (rule get_data_funding_server)
  show ?case
  proof (cases "?R = []")
    case True
    then show ?thesis
      by (subst resource_while.simps) (simp add: gd backlog_result_def stop_def)
  next
    case False
    with assms(2) have p: "?p \<noteq> []" by simp
    define st' where "st' = st\<lparr>last_value := fold max (map row_time ?p) (last_value st)\<rparr>"
    have incr: "incr_rows st (map decorated_row ?p) = Inr (map decorated_row ?p, st')"
      unfolding st'_def using less.prems by (rule incr_rows_page)
    have lv: "last_value st' = row_time (last ?p)"
      using page_fold_max [OF assms(1) p] by (simp add: st'_def)
    have rest: "rows_after hist asset (last_value st') = drop limit ?R"
      using rows_after_page [OF assms(1,2) p] lv by simp
    have wf': "cursor_wf st'"
      using incr less.prems by (rule incr_rows_cursor_wf)
    have "length (rows_after hist asset (last_value st')) < length ?R"
      using rest False assms(2) by simp
    then have IH: "resource_while ?net asset (Suc n) st' = Some (backlog_result limit hist asset (Suc n) st')"
      using wf' by (rule less.hyps)
    have upd: "st'\<lparr>last_value := x\<rparr> = st\<lparr>last_value := x\<rparr>" for x
      by (simp add: st'_def)
    have fm: "fold max (map row_time (drop limit ?R)) (last_value st') =
                fold max (map row_time ?R) (last_value st)"
    proof -
      have "fold max (map row_time ?R) (last_value st) =
              fold max (map row_time (?p @ drop limit ?R)) (last_value st)"
        by (simp only: append_take_drop_id)
      also have "\<dots> = fold max (map row_time (drop limit ?R)) (fold max (map row_time ?p) (last_value st))"
        by (simp only: map_append fold_append o_apply)
      finally show ?thesis by (simp add: st'_def)
    qed
    have "emit (map decorated_row ?p) (backlog_result limit hist asset (Suc n) st') =
            backlog_result limit hist asset n st"
      unfolding backlog_result_def Let_def rest
      by (simp add: emit_def chunks_Cons [OF assms(2) False] upd fm)
    then show ?thesis
      using assms(2) False by (subst resource_while.simps) (simp add: gd p incr IH)
  qed
qed

lemma resource_while_pages_ascending:
  assumes "resource_while net asset n st = Some r" and "honours_start net asset"
  shows "(\<forall>b \<in> set (batches r). \<forall>x \<in> set b. \<forall>t. time_field x = Inr t \<longrightarrow> last_value st < t) \<and>
         (\<forall>i j x y tx ty. i < j \<longrightarrow> j < length (batches r) \<longrightarrow> x \<in> set (batches r ! i) \<longrightarrow>
            y \<in> set (batches r ! j) \<longrightarrow> time_field x = Inr tx \<longrightarrow> time_field y = Inr ty \<longrightarrow> tx < ty)"
  using assms(1)
proof (induction rule: resource_while_induct)
  case (emitted n st resp kept st' r)
  have after: "last_value st < t" if "x \<in> set kept" "time_field x = Inr t" for x t
  proof -
    have "x \<in> set (data resp)" using incr_rows_kept_subset [OF emitted(3)] that(1) by blast
    with emitted(1) assms(2) that(2) have "last_value st + 1 \<le> t"
      unfolding honours_start_def by blast
    then show ?thesis by simp
  qed
  have upto: "t \<le> last_value st'" if "x \<in> set kept" "time_field x = Inr t" for x t
    using incr_rows_kept_time [OF emitted(3) that] by simp
  have mono: "last_value st \<le> last_value st'" using incr_rows_mono [OF emitted(3)] by simp
  show ?case
  proof (intro conjI allI impI ballI)
    fix b x t assume "b \<in> set (batches (emit kept r))" "x \<in> set b" "time_field x = Inr t"
    with emitted(4) after mono show "last_value st < t" by fastforce
  next
    fix i j x y tx ty
    assume ij: "i < j" "j < length (batches (emit kept r))"
      and x: "x \<in> set (batches (emit kept r) ! i)" and y: "y \<in> set (batches (emit kept r) ! j)"
      and tx: "time_field x = Inr tx" and ty: "time_field y = Inr ty"
    obtain j' where j: "j = Suc j'" using ij(1) by (cases j) auto
    have y': "y \<in> set (batches r ! j')" and j': "j' < length (batches r)"
      using y ij(2) j by simp_all
    show "tx < ty"
    proof (cases i)
      case 0
      with x have "tx \<le> last_value st'" using upto tx by simp
      moreover have "last_value st' < ty" using emitted(4) y' j' ty by (meson nth_mem)
      ultimately show ?thesis by simp
    next
      case (Suc i')
      with x ij j have "x \<in> set (batches r ! i')" "i' < j'" by simp_all
      with emitted(4) y' j' tx ty show ?thesis by blast
    qed
  qed
qed simp_all


lemma funding_server_honours:
  assumes "history_wf hist asset"
  shows "honours_start (\<lambda>_. funding_server limit hist) asset"
  unfolding honours_start_def
proof (intro allI impI ballI)
  fix m :: nat and c :: timestamp and resp x t
  assume gd: "get_data (funding_server limit hist) asset c = Inr resp"
    and x: "x \<in> set (data resp)" and t: "time_field x = Inr t"
  have "get_data (funding_server limit hist) asset ((c - 1) + 1) = Inr resp" using gd by simp
  then have "data resp = map decorated_row (take limit (rows_after hist asset (c - 1)))"
    using get_data_funding_server [OF assms, of limit "c - 1"] by simp
  with x obtain row where "row \<in> set (rows_after hist asset (c - 1))" and "x = decorated_row row"
    by (auto dest: in_set_takeD)
  with t show "c \<le> t" by (simp add: rows_after_def)
qed

lemma backlog_concat:
  assumes "history_wf hist asset" and "0 < limit" and "cursor_wf st"
    and "hyperliquid_resource (\<lambda>_. funding_server limit hist) asset st = Some r"
  shows "concat (batches r) = map decorated_row (rows_after hist asset (last_value st))"
proof -
  have "r = backlog_result limit hist asset 0 st"
    using resource_while_server [OF assms(1-3)] assms(4) by (simp add: hyperliquid_resource_while)
  with assms(2) show ?thesis
    by (simp add: backlog_result_def Let_def concat_map_map_chunks)
qed

lemma rows_after_distinct_times:
  assumes "history_wf hist asset"
  shows "distinct (map time_field (map decorated_row (rows_after hist asset c)))"
proof -
  have "sorted_wrt (<) (map row_time (rows_after hist asset c))"
    using rows_after_sorted [OF assms] by (simp add: sorted_wrt_map)
  then show ?thesis
    by (simp add: strict_sorted_iff distinct_map inj_on_def comp_def)
qed

lemma rows_after_fold_max:
  "rows_after hist asset (fold max (map row_time (rows_after hist asset c)) c) = []"
proof -
  have "\<not> fold max (map row_time (rows_after hist asset c)) c < row_time r" if "r \<in> set (hist asset)" for r
  proof (cases "c < row_time r")
    case True
    with that have "row_time r \<in> set (map row_time (rows_after hist asset c))"
      by (simp add: rows_after_def)
    then show ?thesis using fold_max_ge_elem by (metis not_less)
  next
    case False
    then show ?thesis using fold_max_ge_init [of c] by (metis le_less_trans)
  qed
  then show ?thesis by (auto simp: rows_after_def filter_empty_conv)
qed

lemma assets_names_distinct: "distinct (map res_name (hyperliquid_source ASSETS))"
  by code_simp

lemma extract_all_server:
  assumes "\<forall>res \<in> set rss. history_wf hist (res_asset res)" and "0 < limit"
  shows "extract_all (\<lambda>_ _. funding_server limit hist) ps rss =
           Some (Inr (map (\<lambda>res. (res, backlog_result limit hist (res_asset res) 0 (resource_cursor ps res))) rss))"
  using assms(1)
proof (induction rss)
  case Nil
  then show ?case by simp
next
  case (Cons res rss)
  have "cursor_wf (resource_cursor ps res)" by (simp add: resource_cursor_def)
  then have "hyperliquid_resource (\<lambda>_. funding_server limit hist) (res_asset res) (resource_cursor ps res) =
               Some (backlog_result limit hist (res_asset res) 0 (resource_cursor ps res))"
    using resource_while_server [OF _ assms(2)] Cons.prems by (simp add: hyperliquid_resource_while)
  with Cons show ?case by (simp add: backlog_result_def Let_def)
qed

lemma load_server:
  assumes "\<forall>a \<in> set ASSETS. history_wf hist a" and "0 < limit"
  shows "load_hyperliquid (\<lambda>_ _. funding_server limit hist) ps =
           Some (Inr (), commit ps (map (\<lambda>res. (res, backlog_result limit hist (res_asset res) 0
                                                    (resource_cursor ps res)))
                                       (hyperliquid_source ASSETS)))"
proof -
  have "\<forall>res \<in> set (hyperliquid_source ASSETS). history_wf hist (res_asset res)"
    using assms(1) by (auto simp: hyperliquid_source_def resource_of_def)
  from extract_all_server [OF this assms(2)] show ?thesis
    by (simp add: load_hyperliquid_def)
qed

lemma load_server_at:
  assumes "a \<in> set ASSETS"
  shows "cursors (commit ps (map (\<lambda>res. (res, backlog_result limit hist (res_asset res) 0
                                                (resource_cursor ps res))) (hyperliquid_source ASSETS)))
                 (res_name (resource_of a)) =
           Some (fold max (map row_time (rows_after hist a (stored_cursor ps (res_name (resource_of a)))))
                    (stored_cursor ps (res_name (resource_of a)))) \<and>
         tables (commit ps (map (\<lambda>res. (res, backlog_result limit hist (res_asset res) 0
                                                (resource_cursor ps res))) (hyperliquid_source ASSETS)))
                (res_name (resource_of a)) =
           merge_rows (tables ps (res_name (resource_of a)))
             (concat (map (map decorated_row)
                (chunks limit (rows_after hist a (stored_cursor ps (res_name (resource_of a)))))))"
proof -
  let ?xs = "map (\<lambda>res. (res, backlog_result limit hist (res_asset res) 0 (resource_cursor ps res)))
                 (hyperliquid_source ASSETS)"
  have d: "distinct (map (res_name \<circ> fst) ?xs)"
    using assets_names_distinct by (simp add: comp_def)
  have "(resource_of a, backlog_result limit hist a 0 (resource_cursor ps (resource_of a))) \<in> set ?xs"
    using assms by (auto simp: hyperliquid_source_def resource_of_def)
  from commit_at [OF d this] show ?thesis
    by (simp add: backlog_result_def Let_def)
qed

lemma demo_wf: "history_wf demo_history ''BTC''"
  by (simp add: history_wf_def demo_history_def fromtimestamp_ok_def)

lemma demo_run:
  "hyperliquid_resource (\<lambda>_. funding_server 2 demo_history) ''BTC'' (incremental_start None) =
     Some (backlog_result 2 demo_history ''BTC'' 0 (incremental_start None))"
  using resource_while_server [OF demo_wf, of 2 "incremental_start None" 0]
  by (simp add: hyperliquid_resource_while)

lemma demo_result:
  "backlog_result 2 demo_history ''BTC'' 0 (incremental_start None) =
     \<lparr>batches = map (map decorated_row) (chunks 2 (demo_history ''BTC'')),
      outcome = Exhausted,
      cursor = \<lparr>start_value = START_TIME, last_value = 1683853200000\<rparr>,
      requests = 3\<rparr>"
  by (simp add: backlog_result_def rows_after_def demo_history_def incremental_start_def
                START_TIME_def chunks.simps)

section \<open>Properties\<close>

text \<open>
  C1. Against a server that holds a strictly ascending history and serves pages of at
  least one record, the generator started from any consistent cursor returns, and it
  returns exactly the backlog result: every record after the cursor, once, in order, in
  pages of the page size, ending exhausted with the cursor at the highest delivered time.
\<close>

theorem resource_delivers_backlog:
  assumes "history_wf hist asset" and "0 < limit" and "cursor_wf st"
  shows "hyperliquid_resource (\<lambda>_. funding_server limit hist) asset st =
           Some (backlog_result limit hist asset 0 st)"
  using resource_while_server [OF assms] by (simp add: hyperliquid_resource_while)

theorem resource_delivers_backlog_witness:
  "history_wf demo_history ''BTC'' \<and> 0 < (2::nat) \<and> cursor_wf (incremental_start None) \<and>
   hyperliquid_resource (\<lambda>_. funding_server 2 demo_history) ''BTC'' (incremental_start None) =
     Some (backlog_result 2 demo_history ''BTC'' 0 (incremental_start None))"
  using demo_wf resource_delivers_backlog [OF demo_wf, of 2 "incremental_start None"] by simp

text \<open>
  C2. For any network, a stream is reported exhausted only when its last request
  succeeded with an empty page, and it is reported failed with error \<open>e\<close> only when its
  last request raised \<open>e\<close> or the cursor raised \<open>e\<close> on the page it returned: an error is
  never turned into a graceful end, and the end is never invented.
\<close>

theorem resource_end_classified:
  assumes "hyperliquid_resource net asset st = Some r"
  shows "(outcome r = Exhausted \<longrightarrow>
            (\<exists>resp. get_data (net (requests r - 1)) asset (last_value (cursor r) + 1) = Inr resp \<and>
                   data resp = [])) \<and>
         (\<forall>e. outcome r = Failed e \<longrightarrow>
            get_data (net (requests r - 1)) asset (last_value (cursor r) + 1) = Inl e \<or>
            (\<exists>resp. get_data (net (requests r - 1)) asset (last_value (cursor r) + 1) = Inr resp \<and>
                   incr_rows (cursor r) (data resp) = Inl e))"
  using resource_while_outcome [of net asset 0 st r] assms
  by (simp add: hyperliquid_resource_while)

theorem resource_end_classified_witness:
  "\<exists>resp. get_data (funding_server 2 demo_history) ''BTC'' 1683853200001 = Inr resp \<and> data resp = []"
  using resource_end_classified [OF demo_run] by (simp add: demo_result)

text \<open>
  C3. A run that returns made exactly one request per delivered batch plus the one
  that ended it.
\<close>

theorem resource_request_count:
  assumes "hyperliquid_resource net asset st = Some r"
  shows "requests r = length (batches r) + 1"
  using resource_while_requests [of net asset 0 st r] assms
  by (simp add: hyperliquid_resource_while)

theorem resource_request_count_witness:
  "requests (backlog_result 2 demo_history ''BTC'' 0 (incremental_start None)) =
     length (batches (backlog_result 2 demo_history ''BTC'' 0 (incremental_start None))) + 1"
  by (rule resource_request_count [OF demo_run])

text \<open>
  C6. Against any network that honours \<open>startTime\<close>, the times the generator delivers
  strictly increase from one page to the next: every record of a later page has a time
  above every record of an earlier one. So no two pages hold records of the same time:
  when a page ends with a record of time \<open>t\<close>, the next request asks for \<open>t + 1\<close>
  on, and a further record of time \<open>t\<close> is never delivered. (Finding: the generator
  relies on times being unique per coin.)
\<close>

theorem duplicate_time_skipped:
  assumes "honours_start net asset" and "hyperliquid_resource net asset st = Some r"
    and "i < j" and "j < length (batches r)"
    and "x \<in> set (batches r ! i)" and "y \<in> set (batches r ! j)"
    and "time_field x = Inr tx" and "time_field y = Inr ty"
  shows "tx < ty"
  using resource_while_pages_ascending [OF assms(2) [unfolded hyperliquid_resource_while] assms(1)]
    assms(3-) by blast

theorem duplicate_time_skipped_witness:
  "honours_start (\<lambda>_. funding_server 2 demo_history) ''BTC'' \<and>
   batches (backlog_result 2 demo_history ''BTC'' 0 (incremental_start None)) =
     [[decorated_row (demo_history ''BTC'' ! 0), decorated_row (demo_history ''BTC'' ! 1)],
      [decorated_row (demo_history ''BTC'' ! 2)]] \<and>
   (1683849600200 :: timestamp) < 1683853200000"
proof -
  have h: "honours_start (\<lambda>_. funding_server 2 demo_history) ''BTC''"
    by (rule funding_server_honours [OF demo_wf])
  have b: "batches (backlog_result 2 demo_history ''BTC'' 0 (incremental_start None)) =
     [[decorated_row (demo_history ''BTC'' ! 0), decorated_row (demo_history ''BTC'' ! 1)],
      [decorated_row (demo_history ''BTC'' ! 2)]]"
    by (simp add: demo_result demo_history_def chunks_Cons)
  have "(1683849600200 :: timestamp) < 1683853200000"
    by (rule duplicate_time_skipped [OF h demo_run, where i = 0 and j = 1
          and x = "decorated_row (demo_history ''BTC'' ! 1)"
          and y = "decorated_row (demo_history ''BTC'' ! 2)"])
       (simp_all add: b demo_history_def)
  with h b show ?thesis by simp
qed

text \<open>
  C7. \<open>raise_for_status\<close> raises for statuses 400 to 599 only: when the first request
  is answered with any other status (a 1xx or 3xx, as well as a 2xx) and an empty or
  null body, the body is taken for the end of the data and the stream ends exhausted,
  not failed, with the cursor unchanged. (Finding: the spec says every non-2xx status
  is an HTTP error.)
\<close>

theorem redirect_status_ends_stream:
  assumes "net 0 (funding_history_request asset (last_value st + 1)) = Http_Response s (Json_Body b)"
    and "\<not> http_error_status s" and "\<not> py_truthy b"
  shows "hyperliquid_resource net asset st = Some (stop Exhausted st 1)"
  using assms by (simp add: hyperliquid_resource_def get_data_def)

theorem redirect_status_ends_stream_witness:
  "hyperliquid_resource (\<lambda>_ _. Http_Response 304 (Json_Body JNull)) ''BTC'' (incremental_start None) =
     Some (stop Exhausted (incremental_start None) 1)"
  by (rule redirect_status_ends_stream [where s = 304 and b = JNull]) (simp_all add: http_error_status_def)

text \<open>
  C8. A page whose records decode up to one dict without \<open>"time"\<close> makes \<open>get_data\<close>
  raise \<open>KeyError\<close>, whatever follows that record; \<open>KeyError\<close> is not a
  \<open>RequestException\<close>, so the stream fails with it, outside the generator's handler.
  (Finding: the spec classifies a malformed response as a transport error.)
\<close>

theorem missing_time_key_error:
  assumes "net 0 (funding_history_request asset (last_value st + 1)) =
             Http_Response s (Json_Body (JArr (pre @ JObj kvs # post)))"
    and "\<not> http_error_status s" and "decorate_results pre = Inr pre'" and "map_of kvs ''time'' = None"
  shows "hyperliquid_resource net asset st = Some (stop (Failed (Key_Error ''time'')) st 1) \<and>
         \<not> is_request_exception (Key_Error ''time'')"
proof -
  have "decorate_result (JObj kvs) = Inl (Key_Error ''time'')"
    using assms(4) by (simp add: decorate_result_def time_field_JObj)
  with assms(3) have "decorate_results (pre @ JObj kvs # post) = Inl (Key_Error ''time'')"
    by (rule decorate_results_first_error)
  with assms(1,2) show ?thesis
    by (simp add: hyperliquid_resource_def get_data_def)
qed

theorem missing_time_key_error_witness:
  "hyperliquid_resource (\<lambda>_ _. Http_Response 200 (Json_Body (JArr [JObj [(''time'', JInt 1683849600100)],
                                                                 JObj [(''coin'', JStr ''BTC'')]])))
     ''BTC'' (incremental_start None) =
     Some (stop (Failed (Key_Error ''time'')) (incremental_start None) 1) \<and>
   \<not> is_request_exception (Key_Error ''time'')"
proof -
  have "decorate_results [JObj [(''time'', JInt 1683849600100)]] =
          Inr [JObj [(''time'', JInt 1683849600100), (''timestamp'', JDatetime 1683849600100),
                     (''paired_coin'', JStr ''USD'')]]"
    by (simp add: decorate_result_def time_field_def dict_set_def fromtimestamp_ok_def)
  note pre = this
  show ?thesis
    by (rule missing_time_key_error [where s = 200 and pre = "[JObj [(''time'', JInt 1683849600100)]]"
          and kvs = "[(''coin'', JStr ''BTC'')]" and post = "[]", OF _ _ pre])
       (simp_all add: http_error_status_def)
qed

text \<open>
  C10. Replaying a stream from a later committed cursor after its batches were merged
  leaves the destination table as it was: the replayed records are already there, with
  the same values.
\<close>

theorem replay_idempotent:
  assumes "history_wf hist asset" and "0 < limit"
    and "cursor_wf st0" and "cursor_wf st1" and "last_value st0 \<le> last_value st1"
    and "hyperliquid_resource (\<lambda>_. funding_server limit hist) asset st0 = Some r0"
    and "hyperliquid_resource (\<lambda>_. funding_server limit hist) asset st1 = Some r1"
  shows "merge_rows (merge_rows t (concat (batches r0))) (concat (batches r1)) =
           merge_rows t (concat (batches r0))"
proof -
  have c0: "concat (batches r0) = map decorated_row (rows_after hist asset (last_value st0))"
    using assms(1-3,6) by (rule backlog_concat)
  have c1: "concat (batches r1) = map decorated_row (rows_after hist asset (last_value st1))"
    using assms(1,2,4,7) by (rule backlog_concat)
  have "set (concat (batches r1)) \<subseteq> set (concat (batches r0))"
    using assms(5) by (auto simp: c0 c1 rows_after_def)
  then show ?thesis
    using rows_after_distinct_times [OF assms(1)] c0 by (simp add: merge_rows_idem)
qed

theorem replay_idempotent_witness:
  "merge_rows (merge_rows Map.empty (concat (batches (backlog_result 2 demo_history ''BTC'' 0 (incremental_start None)))))
      (concat (batches (backlog_result 2 demo_history ''BTC'' 0 \<lparr>start_value = START_TIME, last_value = 1683849600100\<rparr>))) =
   merge_rows Map.empty (concat (batches (backlog_result 2 demo_history ''BTC'' 0 (incremental_start None))))"
proof -
  let ?st1 = "\<lparr>start_value = START_TIME, last_value = 1683849600100\<rparr>"
  have wf1: "cursor_wf ?st1" by (simp add: cursor_wf_def START_TIME_def)
  have le: "last_value (incremental_start None) \<le> last_value ?st1"
    by (simp add: incremental_start_def START_TIME_def)
  have run1: "hyperliquid_resource (\<lambda>_. funding_server 2 demo_history) ''BTC'' ?st1 =
                Some (backlog_result 2 demo_history ''BTC'' 0 ?st1)"
    using resource_while_server [OF demo_wf _ wf1, where limit = 2 and n = 0]
    by (simp add: hyperliquid_resource_while)
  show ?thesis
    by (rule replay_idempotent [OF demo_wf _ cursor_wf_start wf1 le demo_run run1]) simp
qed

text \<open>
  C11. Against servers holding well-formed histories for every asset, a pipeline run
  returns and succeeds; for every asset, the destination table named after it is the
  old table merged with every record after the asset's stored cursor, and the stored
  cursor becomes the highest time delivered (or stays where it was).
\<close>

theorem load_delivers_backlog:
  assumes "\<forall>a \<in> set ASSETS. history_wf hist a" and "0 < limit"
  shows "\<exists>ps'. load_hyperliquid (\<lambda>_ _. funding_server limit hist) ps = Some (Inr (), ps') \<and>
           (\<forall>a \<in> set ASSETS.
              tables ps' (res_name (resource_of a)) =
                merge_rows (tables ps (res_name (resource_of a)))
                  (map decorated_row (rows_after hist a (stored_cursor ps (res_name (resource_of a))))) \<and>
              stored_cursor ps' (res_name (resource_of a)) =
                fold max (map row_time (rows_after hist a (stored_cursor ps (res_name (resource_of a)))))
                  (stored_cursor ps (res_name (resource_of a))))"
  using load_server [OF assms] load_server_at assms(2)
  by (auto simp: stored_cursor_def [of _ "res_name _"] concat_map_map_chunks)

theorem load_delivers_backlog_witness:
  "\<exists>ps'. load_hyperliquid (\<lambda>_ _. funding_server 2 demo_history) empty_state = Some (Inr (), ps')"
proof -
  have wf: "\<forall>a \<in> set ASSETS. history_wf demo_history a"
    by (simp add: history_wf_def demo_history_def fromtimestamp_ok_def)
  from load_delivers_backlog [OF wf, of 2 empty_state] show ?thesis by auto
qed

text \<open>
  C12. Against unchanged servers, running the pipeline again right after a successful
  run finds no new record for any asset and leaves every table and every cursor as it
  is: a rerun is a no-op.
\<close>

theorem load_rerun_noop:
  assumes "\<forall>a \<in> set ASSETS. history_wf hist a" and "0 < limit"
    and "load_hyperliquid (\<lambda>_ _. funding_server limit hist) ps = Some (Inr (), ps1)"
  shows "load_hyperliquid (\<lambda>_ _. funding_server limit hist) ps1 = Some (Inr (), ps1)"
proof -
  let ?xs = "\<lambda>ps. map (\<lambda>res. (res, backlog_result limit hist (res_asset res) 0 (resource_cursor ps res)))
                     (hyperliquid_source ASSETS)"
  have ps1: "ps1 = commit ps (?xs ps)"
    using load_server [OF assms(1,2), of ps] assms(3) by simp
  have "\<forall>x \<in> set (?xs ps1). case x of (res, r) \<Rightarrow>
          cursors ps1 (res_name res) = Some (last_value (cursor r)) \<and> concat (batches r) = []"
  proof
    fix x assume "x \<in> set (?xs ps1)"
    then obtain a where a: "a \<in> set ASSETS"
      and x: "x = (resource_of a, backlog_result limit hist a 0 (resource_cursor ps1 (resource_of a)))"
      by (auto simp: hyperliquid_source_def resource_of_def)
    let ?n = "res_name (resource_of a)"
    let ?c = "fold max (map row_time (rows_after hist a (stored_cursor ps ?n))) (stored_cursor ps ?n)"
    have cur: "cursors ps1 ?n = Some ?c"
      using load_server_at [OF a, of ps limit hist] ps1 by simp
    then have st: "stored_cursor ps1 ?n = ?c" by (simp add: stored_cursor_def)
    then have "rows_after hist a (stored_cursor ps1 ?n) = []"
      by (simp add: rows_after_fold_max)
    with cur st show "case x of (res, r) \<Rightarrow>
          cursors ps1 (res_name res) = Some (last_value (cursor r)) \<and> concat (batches r) = []"
      by (simp add: x backlog_result_def Let_def)
  qed
  then have "commit ps1 (?xs ps1) = ps1" by (rule commit_noop)
  with load_server [OF assms(1,2), of ps1] show ?thesis by simp
qed

theorem load_rerun_noop_witness:
  "load_hyperliquid (\<lambda>_ _. funding_server 2 demo_history)
     (commit empty_state (map (\<lambda>res. (res, backlog_result 2 demo_history (res_asset res) 0
                                             (resource_cursor empty_state res))) (hyperliquid_source ASSETS))) =
   Some (Inr (), commit empty_state (map (\<lambda>res. (res, backlog_result 2 demo_history (res_asset res) 0
                                             (resource_cursor empty_state res))) (hyperliquid_source ASSETS)))"
proof -
  have wf: "\<forall>a \<in> set ASSETS. history_wf demo_history a"
    by (simp add: history_wf_def demo_history_def fromtimestamp_ok_def)
  show ?thesis
    by (rule load_rerun_noop [OF wf _ load_server [OF wf]]) simp_all
qed

text \<open>
  C13. Restart after a crash converges (spec section 4.2, re-entry): a run from cursor
  \<open>st0\<close> is cut off after the first \<open>k\<close> delivered rows reached the table, with the
  persisted cursor left at \<open>st0\<close> or at the time of one of those durable rows. Re-running
  the generator from the persisted cursor and merging what it delivers gives the table
  and the final cursor of the run that did not crash: delivery is at least once, and
  the merge on \<open>time\<close> removes the duplicates.
\<close>

theorem crash_restart_converges:
  assumes wf: "history_wf hist asset" and lim: "0 < limit" and c0: "cursor_wf st0"
    and run0: "hyperliquid_resource (\<lambda>_. funding_server limit hist) asset st0 = Some r0"
    and c1: "cursor_wf st1" and le: "last_value st0 \<le> last_value st1"
    and durable: "last_value st1 = last_value st0 \<or>
                  (\<exists>x \<in> set (take k (concat (batches r0))). time_field x = Inr (last_value st1))"
    and run1: "hyperliquid_resource (\<lambda>_. funding_server limit hist) asset st1 = Some r1"
  shows "merge_rows (merge_rows t (take k (concat (batches r0)))) (concat (batches r1)) =
           merge_rows t (concat (batches r0)) \<and>
         last_value (cursor r1) = last_value (cursor r0)"
proof -
  let ?R = "rows_after hist asset (last_value st0)"
  let ?c1 = "last_value st1"
  have b0: "concat (batches r0) = map decorated_row ?R"
    by (rule backlog_concat [OF wf lim c0 run0])
  have b1: "concat (batches r1) = map decorated_row (rows_after hist asset ?c1)"
    by (rule backlog_concat [OF wf lim c1 run1])
  have r0: "r0 = backlog_result limit hist asset 0 st0"
    using resource_while_server [OF wf lim c0] run0 by (simp add: hyperliquid_resource_while)
  have r1: "r1 = backlog_result limit hist asset 0 st1"
    using resource_while_server [OF wf lim c1] run1 by (simp add: hyperliquid_resource_while)
  have bound: "?c1 \<le> fold max (map row_time (take k ?R)) (last_value st0)"
    using durable
  proof
    assume "?c1 = last_value st0"
    then show ?thesis by (simp add: fold_max_ge_init)
  next
    assume "\<exists>x \<in> set (take k (concat (batches r0))). time_field x = Inr ?c1"
    then obtain r where "r \<in> set (take k ?R)" and "row_time r = ?c1"
      by (auto simp: b0 take_map)
    then show ?thesis
      by (metis fold_max_ge_elem image_eqI set_map)
  qed
  have after: "\<forall>r \<in> set ?R. last_value st0 < row_time r"
    by (simp add: rows_after_def)
  have split: "rows_after hist asset ?c1 = filter (\<lambda>r. ?c1 < row_time r) (take k ?R) @ drop k ?R"
    using rows_after_mono [OF le] filter_after_prefix [OF rows_after_sorted [OF wf] after bound]
    by simp
  have dist: "distinct (map time_field (map decorated_row (take k ?R)))"
    using distinct_take [OF rows_after_distinct_times [OF wf, of "last_value st0"], of k]
    by (simp add: take_map)
  have sub: "set (map decorated_row (filter (\<lambda>r. ?c1 < row_time r) (take k ?R))) \<subseteq>
               set (map decorated_row (take k ?R))"
    by auto
  have "merge_rows (merge_rows t (take k (concat (batches r0)))) (concat (batches r1)) =
          merge_rows (merge_rows t (map decorated_row (take k ?R))) (map decorated_row (drop k ?R))"
    using merge_rows_idem [OF dist sub, of t] by (simp add: b0 b1 split take_map)
  also have "\<dots> = merge_rows t (map decorated_row (take k ?R) @ map decorated_row (drop k ?R))"
    by simp
  also have "\<dots> = merge_rows t (concat (batches r0))"
    by (simp only: b0 map_append [symmetric] append_take_drop_id)
  finally have tab: "merge_rows (merge_rows t (take k (concat (batches r0)))) (concat (batches r1)) =
                       merge_rows t (concat (batches r0))" .
  have "?c1 \<le> fold max (map row_time ?R) (last_value st0)"
    using bound fold_max_take_le [of k "map row_time ?R" "last_value st0"] by (simp add: take_map)
  then have "fold max (filter (\<lambda>t. ?c1 < t) (map row_time ?R)) ?c1 = fold max (map row_time ?R) (last_value st0)"
    by (rule fold_max_filter_gt [OF le])
  then have "last_value (cursor r1) = last_value (cursor r0)"
    using rows_after_mono [OF le, of hist asset]
    by (simp add: r0 r1 backlog_result_def Let_def filter_map comp_def)
  with tab show ?thesis ..
qed

theorem crash_restart_converges_witness:
  "merge_rows (merge_rows Map.empty
      (take 1 (concat (batches (backlog_result 2 demo_history ''BTC'' 0 (incremental_start None))))))
      (concat (batches (backlog_result 2 demo_history ''BTC'' 0 \<lparr>start_value = START_TIME, last_value = 1683849600100\<rparr>))) =
     merge_rows Map.empty (concat (batches (backlog_result 2 demo_history ''BTC'' 0 (incremental_start None)))) \<and>
   last_value (cursor (backlog_result 2 demo_history ''BTC'' 0 \<lparr>start_value = START_TIME, last_value = 1683849600100\<rparr>)) =
     last_value (cursor (backlog_result 2 demo_history ''BTC'' 0 (incremental_start None)))"
proof -
  let ?st1 = "\<lparr>start_value = START_TIME, last_value = 1683849600100\<rparr>"
  have wf1: "cursor_wf ?st1" by (simp add: cursor_wf_def START_TIME_def)
  have le: "last_value (incremental_start None) \<le> last_value ?st1"
    by (simp add: incremental_start_def START_TIME_def)
  have run1: "hyperliquid_resource (\<lambda>_. funding_server 2 demo_history) ''BTC'' ?st1 =
                Some (backlog_result 2 demo_history ''BTC'' 0 ?st1)"
    using resource_while_server [OF demo_wf _ wf1, where limit = 2 and n = 0]
    by (simp add: hyperliquid_resource_while)
  have durable: "\<exists>x \<in> set (take 1 (concat (batches (backlog_result 2 demo_history ''BTC'' 0 (incremental_start None))))).
                   time_field x = Inr (last_value ?st1)"
    by (simp add: backlog_result_def Let_def concat_map_map_chunks rows_after_def demo_history_def
                  incremental_start_def START_TIME_def)
  show ?thesis
    by (rule crash_restart_converges [OF demo_wf _ cursor_wf_start demo_run wf1 le disjI2 [OF durable] run1])
       simp
qed

end
